theory Spec2Isabelle
  imports Main "HOL-Library.Word" "HOL-Library.Char_ord" "HOL-Library.List_Lexorder"
    "HOL-Library.Multiset" "HOL-Library.AList"
begin

section \<open>EIP-712 typed-data signer: the data model\<close>

text \<open>
  The development embeds the class \<open>EIP712Signer\<close>. Strings are \<^typ>\<open>string\<close>: a
  character is one UTF-16 code unit below 256, so that the length of a string, the
  positions in it and the default order of \<open>Array.prototype.sort\<close> (lexicographic on code
  units) are those of the list; its UTF-8 form has one byte for a unit below 128 and two
  bytes otherwise. A plain object is an association list of its own properties, looked up
  with \<^const>\<open>map_of\<close>; a name that is not an own property is looked up in
  \<open>Object.prototype\<close>. Reading a property of \<open>null\<close> or \<open>undefined\<close> raises; what a
  property of any other value that is not a plain object holds is left to the runtime, as
  a parameter. Promises are left out: an asynchronous function is modelled by its result.
\<close>

type_synonym byte = "8 word"

record EIP712StructField =
  name :: string
  type :: string

type_synonym EIP712Struct = "EIP712StructField list"

text \<open>The field \<open>structs\<close> of a signer: type name to ordered field list.\<close>

type_synonym registry = "(string \<times> EIP712Struct) list"

text \<open>
  Values of type \<open>any\<close>: JSON-like data, \<open>bn.js\<close> big numbers and the members that every
  plain object inherits from \<open>Object.prototype\<close>, each written \<open>Builtin\<close> with its name. A
  JavaScript number is modelled where it is integral.
\<close>

datatype jsval =
    Undefined
  | Null
  | Boolean bool
  | Number int
  | BN int
  | Str string
  | Arr "jsval list"
  | Obj "(string \<times> jsval) list"
  | Builtin string

text \<open>
  Every \<open>throw\<close> of the source is one constructor, named after the error taxonomy; a
  failure inside an external library (\<open>ethers\<close>) is \<open>ExternalFailure\<close>, a failure of the
  JavaScript runtime itself (reading a property of \<open>null\<close>, calling a missing method,
  iterating a value that is not iterable, \<open>Buffer.from\<close> on a value it does not take) is
  \<open>TypeError\<close>.
\<close>

datatype error =
    DuplicateType string
  | MissingField string string
  | InvalidPayloadShape
  | TypeCountMismatch
  | UnknownType string
  | FieldMismatch string string
  | MissingDomainField string
  | UnknownPrimaryType string
  | TypeError
  | ExternalFailure

text \<open>
  The interface \<open>EIP712Payload\<close>. A payload reaches the signer as a plain object, so each
  of the four properties may be absent (\<open>None\<close>) and other keys may be present:
  \<open>extra_keys\<close> lists them. The keys of an object are pairwise different, so a
  repetition in \<open>extra_keys\<close>, or one of the four names there, does not count.
\<close>

record EIP712Payload =
  types :: "(string \<times> EIP712Struct) list option"
  primaryType :: "string option"
  message :: "jsval option"
  domain :: "jsval option"
  extra_keys :: "string list"

record EIP712Signature =
  sig_hex :: string
  sig_v :: nat
  sig_s :: string
  sig_r :: string

text \<open>What \<open>SigningKey.signDigest\<close> returns: two 32-byte values and the recovery value.\<close>

record ec_signature =
  ec_r :: "256 word"
  ec_s :: "256 word"
  ec_v :: nat

text \<open>
  The external collaborators, taken as parameters: the keccak-256 function from bytes to
  a 32-byte digest, the parsing of a bytes-like value by \<open>ethers\<close>, \<open>Buffer.from\<close> on a
  value that is not a string, \<open>toString\<close> of an object other than a big number, the ABI
  tuple encoder, the elliptic-curve signer and the address recovery. \<open>None\<close> stands for
  a thrown exception. Two more parameters stand for the runtime on values that are not
  plain objects (strings, arrays, numbers, booleans, big numbers, built-in members):
  \<open>foreign_property\<close> is what reading a property of such a value gives, and
  \<open>foreign_field\<close> is what \<open>_encodeDataTypeField\<close> does with a value read from one.
\<close>

record capabilities =
  keccak :: "byte list \<Rightarrow> 256 word"
  arrayify :: "jsval \<Rightarrow> byte list option"
  buffer_of_value :: "jsval \<Rightarrow> byte list option"
  object_toString :: "jsval \<Rightarrow> string option"
  abi_encode :: "string list \<Rightarrow> jsval list \<Rightarrow> byte list option"
  signDigest :: "string \<Rightarrow> byte list \<Rightarrow> ec_signature option"
  recoverAddress :: "byte list \<Rightarrow> string \<Rightarrow> string option"
  foreign_property :: "jsval \<Rightarrow> string \<Rightarrow> jsval"
  foreign_field :: "registry \<Rightarrow> string \<Rightarrow> jsval \<Rightarrow> error + (string \<times> jsval)"

record EIP712Signer =
  structs :: registry
  signer_domain :: jsval

datatype signing_key =
    PrivateKey string
  | ExternalSigner "string \<Rightarrow> error + EIP712Signature"

definition EIP712DomainType :: EIP712Struct where
  "EIP712DomainType =
     [\<lparr>name = ''name'', type = ''string''\<rparr>,
      \<lparr>name = ''version'', type = ''string''\<rparr>,
      \<lparr>name = ''chainId'', type = ''uint256''\<rparr>,
      \<lparr>name = ''verifyingContract'', type = ''address''\<rparr>]"

definition B32Z :: string where
  "B32Z = ''0x0000000000000000000000000000000000000000000000000000000000000000''"

definition REQUIRED_FIELDS :: "string list" where
  "REQUIRED_FIELDS = [''domain'', ''types'', ''message'', ''primaryType'']"

section \<open>JavaScript and library primitives\<close>

text \<open>\<open>String.prototype.lastIndexOf\<close>: the last position of a match, or \<open>-1\<close>.\<close>

fun lastIndexOf_from :: "string \<Rightarrow> string \<Rightarrow> nat \<Rightarrow> int" where
  "lastIndexOf_from str pat 0 = (if take (length pat) str = pat then 0 else - 1)"
| "lastIndexOf_from str pat (Suc i) =
     (if take (length pat) (drop (Suc i) str) = pat then int (Suc i)
      else lastIndexOf_from str pat i)"

definition lastIndexOf :: "string \<Rightarrow> string \<Rightarrow> int" where
  "lastIndexOf str pat =
     (if length str < length pat then - 1
      else lastIndexOf_from str pat (length str - length pat))"

text \<open>\<open>String.prototype.slice\<close>: negative positions count from the end.\<close>

definition slice :: "string \<Rightarrow> int \<Rightarrow> int \<Rightarrow> string" where
  "slice str b e =
     (let len = int (length str);
          from = (if b < 0 then max (len + b) 0 else min b len);
          to = (if e < 0 then max (len + e) 0 else min e len)
      in take (nat (to - from)) (drop (nat from) str))"

definition slice_from :: "string \<Rightarrow> int \<Rightarrow> string" where
  "slice_from str b = slice str b (int (length str))"

text \<open>\<open>Array.prototype.join\<close>.\<close>

fun join :: "string list \<Rightarrow> string \<Rightarrow> string" where
  "join [] sep = []"
| "join [x] sep = x"
| "join (x # y # ys) sep = x @ sep @ join (y # ys) sep"

text \<open>
  The names of the properties of \<open>Object.prototype\<close>, which every object literal inherits:
  the constructor, the methods, and the accessor \<open>__proto__\<close>, which gives the prototype
  itself.
\<close>

definition Object_prototype :: "string list" where
  "Object_prototype =
     [''constructor'', ''__defineGetter__'', ''__defineSetter__'', ''hasOwnProperty'',
      ''__lookupGetter__'', ''__lookupSetter__'', ''isPrototypeOf'', ''propertyIsEnumerable'',
      ''toString'', ''valueOf'', ''__proto__'', ''toLocaleString'']"

text \<open>Property access \<open>value[key]\<close>: an own property first, then the prototype.\<close>

fun is_plain_object :: "jsval \<Rightarrow> bool" where
  "is_plain_object (Obj props) = True"
| "is_plain_object other = False"

fun getProp :: "capabilities \<Rightarrow> jsval \<Rightarrow> string \<Rightarrow> error + jsval" where
  "getProp ext Undefined key = Inl TypeError"
| "getProp ext Null key = Inl TypeError"
| "getProp ext (Obj props) key =
     Inr (case map_of props key of
            Some v \<Rightarrow> v
          | None \<Rightarrow> if key \<in> set Object_prototype then Builtin key else Undefined)"
| "getProp ext other key = Inr (foreign_property ext other key)"

text \<open>\<open>typeof value === 'object'\<close>: a built-in method is a function, the prototype is an
  object.\<close>

fun typeof_object :: "jsval \<Rightarrow> bool" where
  "typeof_object Null = True"
| "typeof_object (BN n) = True"
| "typeof_object (Arr elems) = True"
| "typeof_object (Obj props) = True"
| "typeof_object (Builtin key) = (key = ''__proto__'')"
| "typeof_object other = False"

definition hex_digit :: "nat \<Rightarrow> char" where
  "hex_digit d = ''0123456789abcdef'' ! d"

fun hex_value :: "char \<Rightarrow> nat option" where
  "hex_value c =
     (let k = of_char c :: nat in
      if 48 \<le> k \<and> k \<le> 57 then Some (k - 48)
      else if 97 \<le> k \<and> k \<le> 102 then Some (k - 87)
      else if 65 \<le> k \<and> k \<le> 70 then Some (k - 55)
      else None)"

text \<open>\<open>Buffer.prototype.toString('hex')\<close> and \<open>Buffer.from(str, 'hex')\<close>; the latter stops
  at the first pair that is not two hexadecimal digits.\<close>

definition Buffer_toString_hex :: "byte list \<Rightarrow> string" where
  "Buffer_toString_hex bytes =
     concat (map (\<lambda>b. [hex_digit (unat b div 16), hex_digit (unat b mod 16)]) bytes)"

fun Buffer_from_hex :: "string \<Rightarrow> byte list" where
  "Buffer_from_hex (hi # lo # rest) =
     (case (hex_value hi, hex_value lo) of
        (Some h, Some l) \<Rightarrow> of_nat (16 * h + l) # Buffer_from_hex rest
      | _ \<Rightarrow> [])"
| "Buffer_from_hex other = []"

text \<open>\<open>Buffer.from(str)\<close> on a string: its UTF-8 bytes, one for a code unit below 128 and
  two (\<open>110xxxxx 10xxxxxx\<close>) for the others.\<close>

fun Buffer_from_string :: "string \<Rightarrow> byte list" where
  "Buffer_from_string [] = []"
| "Buffer_from_string (c # str) =
     (let unit = of_char c :: nat in
      if unit < 128 then of_nat unit # Buffer_from_string str
      else of_nat (192 + unit div 64) # of_nat (128 + unit mod 64) # Buffer_from_string str)"

definition Buffer_from_utf8 :: "capabilities \<Rightarrow> jsval \<Rightarrow> byte list option" where
  "Buffer_from_utf8 ext v =
     (case v of Str str \<Rightarrow> Some (Buffer_from_string str) | _ \<Rightarrow> buffer_of_value ext v)"

text \<open>A number written to base 16 or 10 without padding (\<open>Number.prototype.toString\<close>,
  \<open>BN.prototype.toString\<close>).\<close>

fun toString_radix16 :: "nat \<Rightarrow> string" where
  "toString_radix16 n =
     (if n < 16 then [hex_digit n] else toString_radix16 (n div 16) @ [hex_digit (n mod 16)])"

fun decimal_nat :: "nat \<Rightarrow> string" where
  "decimal_nat n =
     (if n < 10 then [hex_digit n] else decimal_nat (n div 10) @ [hex_digit (n mod 10)])"

definition BN_toString :: "int \<Rightarrow> string" where
  "BN_toString n = (if n < 0 then CHR ''-'' # decimal_nat (nat (- n)) else decimal_nat (nat n))"

text \<open>\<open>value.toString()\<close> for a value whose \<open>typeof\<close> is \<open>'object'\<close>.\<close>

definition value_toString :: "capabilities \<Rightarrow> jsval \<Rightarrow> error + jsval" where
  "value_toString ext v =
     (case v of
        Null \<Rightarrow> Inl TypeError
      | BN n \<Rightarrow> Inr (Str (BN_toString n))
      | _ \<Rightarrow>
          (case object_toString ext v of
             None \<Rightarrow> Inl TypeError
           | Some str \<Rightarrow> Inr (Str str)))"

text \<open>A 32-byte digest as bytes, most significant first, and \<open>utils.keccak256\<close>, which
  returns the digest as \<open>0x\<close> followed by 64 hexadecimal digits.\<close>

fun be_fixed :: "nat \<Rightarrow> nat \<Rightarrow> byte list" where
  "be_fixed 0 n = []"
| "be_fixed (Suc k) n = be_fixed k (n div 256) @ [of_nat (n mod 256)]"

definition digest_bytes :: "256 word \<Rightarrow> byte list" where
  "digest_bytes w = be_fixed 32 (unat w)"

definition hexlify :: "256 word \<Rightarrow> string" where
  "hexlify w = ''0x'' @ Buffer_toString_hex (digest_bytes w)"

definition utils_keccak256 :: "capabilities \<Rightarrow> byte list \<Rightarrow> string" where
  "utils_keccak256 ext bytes = hexlify (keccak ext bytes)"

text \<open>The big-number operations of \<open>bn.js\<close> on values below \<open>2 ^ width\<close>: construction
  from big-endian bytes, two's complement in both directions, and the shortest big-endian
  byte array of the magnitude.\<close>

definition BN_of_bytes :: "byte list \<Rightarrow> int" where
  "BN_of_bytes bytes = foldl (\<lambda>acc b. acc * 256 + uint b) 0 bytes"

definition BN_notn :: "int \<Rightarrow> nat \<Rightarrow> int" where
  "BN_notn x width = 2 ^ width - 1 - x"

definition BN_fromTwos :: "int \<Rightarrow> nat \<Rightarrow> int" where
  "BN_fromTwos x width = (if bit x (width - 1) then - (BN_notn x width + 1) else x)"

definition BN_toTwos :: "int \<Rightarrow> nat \<Rightarrow> int" where
  "BN_toTwos x width = (if x < 0 then BN_notn \<bar>x\<bar> width + 1 else x)"

fun be_bytes :: "nat \<Rightarrow> byte list" where
  "be_bytes n = (if n < 256 then [of_nat n] else be_bytes (n div 256) @ [of_nat (n mod 256)])"

definition BN_toArray :: "int \<Rightarrow> byte list" where
  "BN_toArray x = be_bytes (nat \<bar>x\<bar>)"

section \<open>The type registry and dependency resolution\<close>

text \<open>
  The field \<open>structs\<close> is an object literal, so \<open>this.structs[name]\<close> is the registered
  schema, or a member inherited from \<open>Object.prototype\<close> (which is neither \<open>undefined\<close> nor
  falsy, and is not an array), or \<open>undefined\<close>. \<open>_addType\<close> refuses a name that is
  registered or inherited, so no registered name hides an inherited member.
\<close>

datatype struct_lookup =
    Absent
  | Inherited
  | Own EIP712Struct

definition structs_get :: "registry \<Rightarrow> string \<Rightarrow> struct_lookup" where
  "structs_get reg nm =
     (case map_of reg nm of
        Some struct \<Rightarrow> Own struct
      | None \<Rightarrow> if nm \<in> set Object_prototype then Inherited else Absent)"

definition addType :: "registry \<Rightarrow> string \<Rightarrow> EIP712Struct \<Rightarrow> error + registry" where
  "addType reg nm struct =
     (if structs_get reg nm \<noteq> Absent then Inl (DuplicateType nm) else Inr (reg @ [(nm, struct)]))"

fun addTypes :: "registry \<Rightarrow> (string \<times> EIP712Struct) list \<Rightarrow> error + registry" where
  "addTypes reg [] = Inr reg"
| "addTypes reg (entry # rest) =
     (case addType reg (fst entry) (snd entry) of
        Inl e \<Rightarrow> Inl e
      | Inr reg' \<Rightarrow> addTypes reg' rest)"

text \<open>The constructor: the registry starts with the reserved domain type.\<close>

definition constructor :: "jsval \<Rightarrow> (string \<times> EIP712Struct) list \<Rightarrow> error + EIP712Signer" where
  "constructor dmn tys =
     (case addTypes [(''EIP712Domain'', EIP712DomainType)] tys of
        Inl e \<Rightarrow> Inl e
      | Inr reg \<Rightarrow> Inr \<lparr>structs = reg, signer_domain = dmn\<rparr>)"

text \<open>The test \<open>type.lastIndexOf('[]') === type.length - 2\<close> and the type it leaves.\<close>

definition isArrayType :: "string \<Rightarrow> bool" where
  "isArrayType ty \<longleftrightarrow> lastIndexOf ty ''[]'' = int (length ty) - 2"

definition extracted_type :: "string \<Rightarrow> string" where
  "extracted_type ty = slice ty 0 (lastIndexOf ty ''[]'')"

text \<open>
  \<open>_getDependenciesOf\<close>. The object \<open>met\<close> is shared by all recursive calls and updated
  in place, so the model passes it in and returns it; the second function is the loop
  over the fields of a struct. The loop iterates \<open>this.structs[type]\<close>, which raises when
  that is an inherited member.
\<close>

function getDependenciesOf ::
    "registry \<Rightarrow> string \<Rightarrow> string set \<Rightarrow> error + (string list \<times> string set)"
  and getDependenciesOf_fields ::
    "registry \<Rightarrow> EIP712Struct \<Rightarrow> string list \<Rightarrow> string set
       \<Rightarrow> error + (string list \<times> string set)"
where
  "getDependenciesOf reg ty met =
     (if isArrayType ty then getDependenciesOf reg (extracted_type ty) met
      else if ty \<in> met \<or> structs_get reg ty = Absent then Inr ([], met)
      else
        (case structs_get reg ty of
           Own flds \<Rightarrow> getDependenciesOf_fields reg flds [ty] (insert ty met)
         | _ \<Rightarrow> Inl TypeError))"
| "getDependenciesOf_fields reg [] result met = Inr (result, met)"
| "getDependenciesOf_fields reg (field # rest) result met =
     (case getDependenciesOf reg (type field) met of
        Inl e \<Rightarrow> Inl e
      | Inr (deps, met') \<Rightarrow> getDependenciesOf_fields reg rest (result @ deps) met')"
  by pat_completeness auto

lemma lastIndexOf_from_bounds:
  "- 1 \<le> lastIndexOf_from str pat i \<and> lastIndexOf_from str pat i \<le> int i"
  by (induction i) auto

lemma lastIndexOf_ge: "- 1 \<le> lastIndexOf str pat"
  using lastIndexOf_from_bounds [of str pat] by (simp add: lastIndexOf_def)

lemma extracted_type_shorter: "isArrayType ty \<Longrightarrow> length (extracted_type ty) < length ty"
  using lastIndexOf_ge [of ty "''[]''"]
  by (auto simp: isArrayType_def extracted_type_def slice_def Let_def min_def max_def)

lemma structs_get_Own: "structs_get reg nm = Own flds \<longleftrightarrow> map_of reg nm = Some flds"
  by (auto simp: structs_get_def split: option.splits)

lemma getDependenciesOf_met_mono_partial:
  "getDependenciesOf_getDependenciesOf_fields_dom (Inl (reg, ty, met)) \<Longrightarrow>
     getDependenciesOf reg ty met = Inr (out, met_out) \<Longrightarrow> met \<subseteq> met_out"
  "getDependenciesOf_getDependenciesOf_fields_dom (Inr (reg, flds, result, met)) \<Longrightarrow>
     getDependenciesOf_fields reg flds result met = Inr (out, met_out) \<Longrightarrow> met \<subseteq> met_out"
proof (induction reg ty met and reg flds result met arbitrary: out met_out and out met_out
       rule: getDependenciesOf_getDependenciesOf_fields.pinduct)
  case (1 reg ty met)
  show ?case
  proof (cases "isArrayType ty")
    case True
    with 1 show ?thesis by (simp add: getDependenciesOf.psimps)
  next
    case False
    show ?thesis
    proof (cases "ty \<in> met \<or> structs_get reg ty = Absent")
      case True
      with 1(1,4) False show ?thesis by (auto simp: getDependenciesOf.psimps)
    next
      case stop: False
      with 1(1,4) False obtain flds where own: "structs_get reg ty = Own flds"
        and run: "getDependenciesOf_fields reg flds [ty] (insert ty met) = Inr (out, met_out)"
        by (auto simp: getDependenciesOf.psimps split: struct_lookup.splits)
      from 1(3) [OF False stop own run] show ?thesis by blast
    qed
  qed
next
  case (2 reg result met)
  then show ?case by (simp add: getDependenciesOf_fields.psimps)
next
  case (3 reg field rest result met)
  from 3(1,4) obtain deps met' where
    first: "getDependenciesOf reg (type field) met = Inr (deps, met')"
    and run: "getDependenciesOf_fields reg rest (result @ deps) met' = Inr (out, met_out)"
    by (auto simp: getDependenciesOf_fields.psimps split: sum.splits)
  from 3(2) [OF first] have "met \<subseteq> met'" .
  moreover from 3(3) [OF first refl run] have "met' \<subseteq> met_out" .
  ultimately show ?case by blast
qed

text \<open>The number of registered names not yet met: it bounds the depth of the descent.\<close>

definition unseen :: "registry \<Rightarrow> string set \<Rightarrow> nat" where
  "unseen reg met = card (set (map fst reg) - met)"

lemma unseen_mono: "met \<subseteq> met' \<Longrightarrow> unseen reg met' \<le> unseen reg met"
  unfolding unseen_def by (intro card_mono) auto

lemma unseen_insert:
  "map_of reg ty = Some flds \<Longrightarrow> ty \<notin> met \<Longrightarrow> unseen reg (insert ty met) < unseen reg met"
proof -
  assume registered: "map_of reg ty = Some flds" and new: "ty \<notin> met"
  from registered have "ty \<in> set (map fst reg)"
    by (metis map_of_eq_None_iff option.distinct(1) set_map)
  with new have "set (map fst reg) - insert ty met \<subset> set (map fst reg) - met"
    by blast
  then show ?thesis
    unfolding unseen_def by (intro psubset_card_mono) auto
qed

termination getDependenciesOf
proof (relation "inv_image (less_than <*lex*> less_than <*lex*> less_than)
        (\<lambda>x. case x of
           Inl (reg, ty, met) \<Rightarrow> (unseen reg met, 0::nat, length ty)
         | Inr (reg, flds, result, met) \<Rightarrow> (unseen reg met, 1, length flds))", goal_cases)
  case 1
  then show ?case by (intro wf_inv_image wf_lex_prod wf_less_than)
next
  case (2 reg ty met)
  then show ?case by (simp add: extracted_type_shorter)
next
  case (3 reg ty met flds)
  then show ?case by (auto simp: unseen_insert structs_get_Own)
next
  case (4 reg field rest result met)
  then show ?case by simp
next
  case (5 reg field rest result met found deps met')
  then have "met \<subseteq> met'"
    using getDependenciesOf_met_mono_partial(1) [of reg "type field" met deps met'] by simp
  then have "unseen reg met' \<le> unseen reg met" by (rule unseen_mono)
  then show ?case by auto
qed

section \<open>The type signature and its hash\<close>

text \<open>The loop of \<open>_encodeType\<close>, which appends one block per type to \<open>result\<close>.\<close>

fun encodeType_loop :: "registry \<Rightarrow> string list \<Rightarrow> string \<Rightarrow> error + string" where
  "encodeType_loop reg [] result = Inr result"
| "encodeType_loop reg (t # ts) result =
     (case structs_get reg t of
        Own flds \<Rightarrow>
          encodeType_loop reg ts
            (result @ t @ ''('' @ join (map (\<lambda>struct. type struct @ '' '' @ name struct) flds) '','' @ '')'')
      | _ \<Rightarrow> Inl TypeError)"

definition encodeType :: "registry \<Rightarrow> string \<Rightarrow> error + string" where
  "encodeType reg ty =
     (case getDependenciesOf reg ty {} of
        Inl e \<Rightarrow> Inl e
      | Inr (found, met) \<Rightarrow>
          (let dependencies = sort (filter (\<lambda>dep. dep \<noteq> ty) found);
               dependencies = [ty] @ dependencies
           in encodeType_loop reg dependencies []))"

definition hashType :: "capabilities \<Rightarrow> registry \<Rightarrow> string \<Rightarrow> error + string" where
  "hashType ext reg ty =
     (case encodeType reg ty of
        Inl e \<Rightarrow> Inl e
      | Inr signature \<Rightarrow> Inr (utils_keccak256 ext (Buffer_from_string signature)))"

section \<open>The data encoder\<close>

text \<open>
  \<open>_encodeDataTypeField\<close>, \<open>_hashData\<close> and \<open>_encodeData\<close> call each other along the
  nesting of the value. \<open>encodeData_fields\<close> is the loop of \<open>_encodeData\<close> over the
  fields of the type, with the two arrays it extends; \<open>encode_array\<close> is the \<open>map\<close> over
  the elements of an array value. \<open>_encodeData\<close> returns the bytes that the hexadecimal
  string of the ABI encoder denotes. The struct test \<open>if (this.structs[type])\<close> holds for
  a registered name and for an inherited one. A field of a plain object is an own
  property, which is part of the record, or an inherited member. Where the record is not
  a plain object (a string, an array, a number, a function), the loop is the same, but the
  value of a field comes from the runtime and so does its encoding: such values can refer
  to themselves (the constructor of a function is a function), so the descent into them
  need not end, and the model does not follow it.
\<close>

function encodeDataTypeField ::
    "capabilities \<Rightarrow> registry \<Rightarrow> string \<Rightarrow> jsval \<Rightarrow> error + (string \<times> jsval)"
  and hashData :: "capabilities \<Rightarrow> registry \<Rightarrow> string \<Rightarrow> jsval \<Rightarrow> error + string"
  and encodeData :: "capabilities \<Rightarrow> registry \<Rightarrow> string \<Rightarrow> jsval \<Rightarrow> error + byte list"
  and encodeData_fields ::
    "capabilities \<Rightarrow> registry \<Rightarrow> string \<Rightarrow> EIP712Struct \<Rightarrow> jsval \<Rightarrow> string list \<Rightarrow> jsval list
       \<Rightarrow> error + (string list \<times> jsval list)"
  and encode_array ::
    "capabilities \<Rightarrow> registry \<Rightarrow> string \<Rightarrow> jsval list \<Rightarrow> error + (string \<times> jsval) list"
where
  "encodeDataTypeField ext reg ty val =
     (if structs_get reg ty \<noteq> Absent then
        (if val = Null then Inr (''bytes32'', Str B32Z)
         else case hashData ext reg ty val of
                Inl e \<Rightarrow> Inl e
              | Inr h \<Rightarrow> Inr (''bytes32'', Str h))
      else if ty = ''bytes'' then
        (case arrayify ext val of
           None \<Rightarrow> Inl ExternalFailure
         | Some bytes \<Rightarrow> Inr (''bytes32'', Str (utils_keccak256 ext bytes)))
      else if ty = ''string'' then
        (case Buffer_from_utf8 ext val of
           None \<Rightarrow> Inl TypeError
         | Some bytes \<Rightarrow> Inr (''bytes32'', Str (utils_keccak256 ext bytes)))
      else
        (case (if ty = ''uint256'' \<and> typeof_object val then value_toString ext val else Inr val) of
           Inl e \<Rightarrow> Inl e
         | Inr val' \<Rightarrow>
             if isArrayType ty then
               (case val' of
                  Arr elems \<Rightarrow>
                    (case encode_array ext reg (extracted_type ty) elems of
                       Inl e \<Rightarrow> Inl e
                     | Inr encoded_array \<Rightarrow>
                         (case abi_encode ext (map fst encoded_array) (map snd encoded_array) of
                            None \<Rightarrow> Inl ExternalFailure
                          | Some bytes \<Rightarrow> Inr (''bytes32'', Str (utils_keccak256 ext bytes))))
                | _ \<Rightarrow> Inl TypeError)
             else Inr (ty, val')))"
| "hashData ext reg ty dat =
     (case encodeData ext reg ty dat of
        Inl e \<Rightarrow> Inl e
      | Inr bytes \<Rightarrow> Inr (utils_keccak256 ext bytes))"
| "encodeData ext reg nm payload =
     (case hashType ext reg nm of
        Inl e \<Rightarrow> Inl e
      | Inr typeHash \<Rightarrow>
          (case structs_get reg nm of
             Own flds \<Rightarrow>
               (case encodeData_fields ext reg nm flds payload [''bytes32''] [Str typeHash] of
                  Inl e \<Rightarrow> Inl e
                | Inr (encodedTypes, encodedData) \<Rightarrow>
                    (case abi_encode ext encodedTypes encodedData of
                       None \<Rightarrow> Inl ExternalFailure
                     | Some bytes \<Rightarrow> Inr bytes))
           | _ \<Rightarrow> Inl TypeError))"
| "encodeData_fields ext reg nm [] payload encodedTypes encodedData =
     Inr (encodedTypes, encodedData)"
| "encodeData_fields ext reg nm (field # rest) payload encodedTypes encodedData =
     (case getProp ext payload (name field) of
        Inl e \<Rightarrow> Inl e
      | Inr v \<Rightarrow>
          if v = Undefined then Inl (MissingField nm (name field))
          else
            (case (if is_plain_object payload then encodeDataTypeField ext reg (type field) v
                   else foreign_field ext reg (type field) v) of
               Inl e \<Rightarrow> Inl e
             | Inr field_res \<Rightarrow>
                 encodeData_fields ext reg nm rest payload
                   (encodedTypes @ [fst field_res]) (encodedData @ [snd field_res])))"
| "encode_array ext reg ty [] = Inr []"
| "encode_array ext reg ty (elem # rest) =
     (case encodeDataTypeField ext reg ty elem of
        Inl e \<Rightarrow> Inl e
      | Inr p \<Rightarrow>
          (case encode_array ext reg ty rest of
             Inl e \<Rightarrow> Inl e
           | Inr ps \<Rightarrow> Inr (p # ps)))"
  by pat_completeness auto

lemma getProp_smaller:
  assumes "getProp ext payload key = Inr v" and "is_plain_object payload"
  shows "size v < size payload"
proof (cases payload)
  case (Obj props)
  show ?thesis
  proof (cases "map_of props key")
    case None
    with assms(1) Obj show ?thesis by (auto split: if_splits)
  next
    case (Some own)
    with assms(1) Obj have "(key, v) \<in> set props" by (auto dest: map_of_SomeD)
    then have "size v < Suc (size_list (size_prod (\<lambda>_. 0) size) props)"
      by (induction props) auto
    with Obj show ?thesis by simp
  qed
qed (use assms(2) in auto)

lemma not_isArrayType_uint256: "\<not> isArrayType ''uint256''"
  by (simp add: isArrayType_def lastIndexOf_def)

termination encodeDataTypeField
proof (relation "inv_image (less_than <*lex*> less_than <*lex*> less_than)
        (\<lambda>x. case x of
           Inl (Inl (ext, reg, ty, val)) \<Rightarrow> (size val, 3::nat, 0::nat)
         | Inl (Inr (ext, reg, ty, dat)) \<Rightarrow> (size dat, 2, 0)
         | Inr (Inl (ext, reg, nm, payload)) \<Rightarrow> (size payload, 1, 0)
         | Inr (Inr (Inl (ext, reg, nm, flds, payload, tys, dat))) \<Rightarrow> (size payload, 0, length flds)
         | Inr (Inr (Inr (ext, reg, ty, elems))) \<Rightarrow> (Suc (size_list size elems), 0, 0))", goal_cases)
  case 1
  then show ?case by (intro wf_inv_image wf_lex_prod wf_less_than)
next
  case (2 ext reg ty val)
  then show ?case by simp
next
  case (3 ext reg ty val x2 x7)
  then show ?case
    by (auto simp: not_isArrayType_uint256 split: if_splits)
next
  case (4 ext reg ty dat)
  then show ?case by simp
next
  case (5 ext reg nm payload x2 x2a)
  then show ?case by simp
next
  case (6 ext reg nm field rest payload encodedTypes encodedData x2)
  then show ?case by (simp add: getProp_smaller)
next
  case (7 ext reg nm field rest payload encodedTypes encodedData x2 x2a)
  then show ?case by simp
next
  case (8 ext reg ty elem rest)
  then show ?case by simp
next
  case (9 ext reg ty elem rest x2)
  then show ?case by simp
qed


section \<open>Payload validation\<close>

definition Object_keys :: "EIP712Payload \<Rightarrow> string list" where
  "Object_keys payload =
     (case domain payload of None \<Rightarrow> [] | Some _ \<Rightarrow> [''domain'']) @
     (case types payload of None \<Rightarrow> [] | Some _ \<Rightarrow> [''types'']) @
     (case message payload of None \<Rightarrow> [] | Some _ \<Rightarrow> [''message'']) @
     (case primaryType payload of None \<Rightarrow> [] | Some _ \<Rightarrow> [''primaryType'']) @
     remdups (filter (\<lambda>key. key \<notin> set REQUIRED_FIELDS) (extra_keys payload))"

text \<open>Reading a property that may be absent gives \<open>undefined\<close>.\<close>

definition property_value :: "jsval option \<Rightarrow> jsval" where
  "property_value p = (case p of None \<Rightarrow> Undefined | Some v \<Rightarrow> v)"

fun verifyMainPayloadField_loop :: "string list \<Rightarrow> string list \<Rightarrow> error + unit" where
  "verifyMainPayloadField_loop [] keys = Inr ()"
| "verifyMainPayloadField_loop (req # rest) keys =
     (if req \<notin> set keys then Inl InvalidPayloadShape
      else verifyMainPayloadField_loop rest keys)"

definition verifyMainPayloadField :: "EIP712Payload \<Rightarrow> error + unit" where
  "verifyMainPayloadField payload =
     (if length (Object_keys payload) \<noteq> length REQUIRED_FIELDS then Inl InvalidPayloadShape
      else verifyMainPayloadField_loop REQUIRED_FIELDS (Object_keys payload))"

text \<open>The object \<open>required_types\<close> of \<open>_verifyTypes\<close>, built by assignments.\<close>

definition required_types :: "registry \<Rightarrow> string list \<Rightarrow> (string \<times> struct_lookup) list" where
  "required_types reg primary_type_dependencies =
     fold (\<lambda>dep req. AList.update dep (structs_get reg dep) req) primary_type_dependencies
       [(''EIP712Domain'', structs_get reg ''EIP712Domain'')]"

text \<open>The loop over the fields that the payload claims for one type; \<open>findIndex\<close> is a
  method of arrays only.\<close>

fun verifyTypes_fields :: "string \<Rightarrow> struct_lookup \<Rightarrow> EIP712Struct \<Rightarrow> error + unit" where
  "verifyTypes_fields ty registered_current_type [] = Inr ()"
| "verifyTypes_fields ty registered_current_type (field # rest) =
     (case registered_current_type of
        Own registered \<Rightarrow>
          (case find (\<lambda>eq_field. name eq_field = name field) registered of
             None \<Rightarrow> Inl (FieldMismatch ty (name field))
           | Some eq_field \<Rightarrow>
               if type field \<noteq> type eq_field then Inl (FieldMismatch ty (name field))
               else verifyTypes_fields ty registered_current_type rest)
      | _ \<Rightarrow> Inl TypeError)"

fun verifyTypes_loop ::
    "registry \<Rightarrow> (string \<times> EIP712Struct) list \<Rightarrow> string list \<Rightarrow> error + unit" where
  "verifyTypes_loop reg payload_types [] = Inr ()"
| "verifyTypes_loop reg payload_types (ty # rest) =
     (if structs_get reg ty = Absent then Inl (UnknownType ty)
      else
        (case map_of payload_types ty of
           None \<Rightarrow> Inl TypeError
         | Some current_type \<Rightarrow>
             (case verifyTypes_fields ty (structs_get reg ty) current_type of
                Inl e \<Rightarrow> Inl e
              | Inr _ \<Rightarrow> verifyTypes_loop reg payload_types rest)))"

definition verifyTypes :: "registry \<Rightarrow> EIP712Payload \<Rightarrow> error + unit" where
  "verifyTypes reg payload =
     (case primaryType payload of
        None \<Rightarrow> Inl TypeError
      | Some primary \<Rightarrow>
          (case getDependenciesOf reg primary {} of
             Inl e \<Rightarrow> Inl e
           | Inr (primary_type_dependencies, met) \<Rightarrow>
               (case types payload of
                  None \<Rightarrow> Inl TypeError
                | Some payload_types \<Rightarrow>
                    if length (map fst payload_types)
                         \<noteq> length (map fst (required_types reg primary_type_dependencies))
                    then Inl TypeCountMismatch
                    else verifyTypes_loop reg payload_types (map fst payload_types))))"

fun verifyDomain_loop :: "capabilities \<Rightarrow> EIP712Struct \<Rightarrow> jsval \<Rightarrow> error + unit" where
  "verifyDomain_loop ext [] dmn = Inr ()"
| "verifyDomain_loop ext (field # rest) dmn =
     (case getProp ext dmn (name field) of
        Inl e \<Rightarrow> Inl e
      | Inr v \<Rightarrow>
          if v = Undefined then Inl (MissingDomainField (name field))
          else verifyDomain_loop ext rest dmn)"

definition verifyDomain :: "capabilities \<Rightarrow> registry \<Rightarrow> EIP712Payload \<Rightarrow> error + unit" where
  "verifyDomain ext reg payload =
     (case structs_get reg ''EIP712Domain'' of
        Own flds \<Rightarrow> verifyDomain_loop ext flds (property_value (domain payload))
      | _ \<Rightarrow> Inl TypeError)"

text \<open>\<open>_verifyPrimaryType\<close>; an absent \<open>primaryType\<close> is read as the key \<open>undefined\<close>.\<close>

definition verifyPrimaryType :: "registry \<Rightarrow> EIP712Payload \<Rightarrow> error + unit" where
  "verifyPrimaryType reg payload =
     (let primary = (case primaryType payload of None \<Rightarrow> ''undefined'' | Some p \<Rightarrow> p) in
      if structs_get reg primary = Absent then Inl (UnknownPrimaryType primary) else Inr ())"

section \<open>The public interface\<close>

text \<open>\<open>encode\<close>: the shape check, the three further checks when \<open>verify\<close> is set,
  then the buffers collected in \<open>result\<close>.\<close>

definition encode ::
    "capabilities \<Rightarrow> EIP712Signer \<Rightarrow> EIP712Payload \<Rightarrow> bool \<Rightarrow> error + string" where
  "encode ext signer payload verify =
     (case verifyMainPayloadField payload of
        Inl e \<Rightarrow> Inl e
      | Inr _ \<Rightarrow>
     (case (if verify then
              (case verifyTypes (structs signer) payload of
                 Inl e \<Rightarrow> Inl e
               | Inr _ \<Rightarrow>
                   (case verifyDomain ext (structs signer) payload of
                      Inl e \<Rightarrow> Inl e
                    | Inr _ \<Rightarrow> verifyPrimaryType (structs signer) payload))
            else Inr ()) of
        Inl e \<Rightarrow> Inl e
      | Inr _ \<Rightarrow>
     (let result = [Buffer_from_hex ''1901''] in
      case hashData ext (structs signer) ''EIP712Domain'' (property_value (domain payload)) of
        Inl e \<Rightarrow> Inl e
      | Inr domain_hash \<Rightarrow>
     (let result = result @ [Buffer_from_hex (slice_from domain_hash 2)] in
      case primaryType payload of
        None \<Rightarrow> Inl TypeError
      | Some primary \<Rightarrow>
          if primary \<noteq> ''EIP712Domain'' then
            (case hashData ext (structs signer) primary (property_value (message payload)) of
               Inl e \<Rightarrow> Inl e
             | Inr message_hash \<Rightarrow>
                 (let result = result @ [Buffer_from_hex (slice_from message_hash 2)] in
                  Inr (''0x'' @ Buffer_toString_hex (concat result))))
          else Inr (''0x'' @ Buffer_toString_hex (concat result))))))"

definition verifyPayload :: "capabilities \<Rightarrow> EIP712Signer \<Rightarrow> EIP712Payload \<Rightarrow> error + unit" where
  "verifyPayload ext signer payload =
     (case verifyMainPayloadField payload of
        Inl e \<Rightarrow> Inl e
      | Inr _ \<Rightarrow>
     (case verifyTypes (structs signer) payload of
        Inl e \<Rightarrow> Inl e
      | Inr _ \<Rightarrow>
     (case verifyDomain ext (structs signer) payload of
        Inl e \<Rightarrow> Inl e
      | Inr _ \<Rightarrow>
     (case verifyPrimaryType (structs signer) payload of
        Inl e \<Rightarrow> Inl e
      | Inr _ \<Rightarrow>
     (case encode ext signer payload False of
        Inl e \<Rightarrow> Inl e
      | Inr _ \<Rightarrow> Inr ())))))"

definition fromSigned :: "string \<Rightarrow> int" where
  "fromSigned num = BN_fromTwos (BN_of_bytes (Buffer_from_hex (slice_from num 2))) 256"

definition toUnsigned :: "int \<Rightarrow> byte list" where
  "toUnsigned num = BN_toArray (BN_toTwos num 256)"

function padWithZeroes :: "string \<Rightarrow> nat \<Rightarrow> string" where
  "padWithZeroes myString len =
     (if length myString < len then padWithZeroes (CHR ''0'' # myString) len else myString)"
  by pat_completeness auto
termination
  by (relation "measure (\<lambda>(myString, len). len - length myString)") auto

definition sign ::
    "capabilities \<Rightarrow> EIP712Signer \<Rightarrow> signing_key \<Rightarrow> EIP712Payload \<Rightarrow> bool
       \<Rightarrow> error + EIP712Signature" where
  "sign ext signer privateKey payload verify =
     (case encode ext signer payload verify of
        Inl e \<Rightarrow> Inl e
      | Inr encoded_payload \<Rightarrow>
          (case privateKey of
             PrivateKey key \<Rightarrow>
               (let hashed_payload =
                      utils_keccak256 ext (Buffer_from_hex (slice_from encoded_payload 2)) in
                case signDigest ext key (Buffer_from_hex (slice_from hashed_payload 2)) of
                  None \<Rightarrow> Inl ExternalFailure
                | Some signature \<Rightarrow>
                    (let rSig = fromSigned (hexlify (ec_r signature));
                         sSig = fromSigned (hexlify (ec_s signature));
                         vSig = ec_v signature;
                         rStr = padWithZeroes (Buffer_toString_hex (toUnsigned rSig)) 64;
                         sStr = padWithZeroes (Buffer_toString_hex (toUnsigned sSig)) 64;
                         vStr = toString_radix16 vSig
                     in Inr \<lparr>sig_hex = ''0x'' @ rStr @ sStr @ vStr,
                             sig_v = vSig, sig_s = sStr, sig_r = rStr\<rparr>))
           | ExternalSigner signer_fn \<Rightarrow> signer_fn encoded_payload))"

definition verify ::
    "capabilities \<Rightarrow> EIP712Signer \<Rightarrow> EIP712Payload \<Rightarrow> string \<Rightarrow> bool \<Rightarrow> error + string" where
  "verify ext signer payload signature check =
     (case encode ext signer payload check of
        Inl e \<Rightarrow> Inl e
      | Inr encoded_payload \<Rightarrow>
          (let hashed_payload =
                 utils_keccak256 ext (Buffer_from_hex (slice_from encoded_payload 2)) in
           case recoverAddress ext (Buffer_from_hex (slice_from hashed_payload 2)) signature of
             None \<Rightarrow> Inl ExternalFailure
           | Some address \<Rightarrow> Inr address))"

section \<open>The wording of the specification\<close>




text \<open>UTF-8 as the Unicode standard defines it: the bytes of one code point, by its
  range, and the bytes of a string, whose characters are code points below 256.\<close>

definition utf8_code_point :: "nat \<Rightarrow> byte list" where
  "utf8_code_point cp =
     (if cp < 0x80 then [of_nat cp]
      else if cp < 0x800 then [of_nat (0xC0 + cp div 0x40), of_nat (0x80 + cp mod 0x40)]
      else if cp < 0x10000 then
        [of_nat (0xE0 + cp div 0x1000), of_nat (0x80 + cp div 0x40 mod 0x40),
         of_nat (0x80 + cp mod 0x40)]
      else
        [of_nat (0xF0 + cp div 0x40000), of_nat (0x80 + cp div 0x1000 mod 0x40),
         of_nat (0x80 + cp div 0x40 mod 0x40), of_nat (0x80 + cp mod 0x40)])"

definition utf8_bytes :: "string \<Rightarrow> byte list" where
  "utf8_bytes str = concat (map (\<lambda>c. utf8_code_point (of_char c)) str)"




text \<open>What a call of the dependency resolver adds: new, pairwise different, registered
  names, all recorded in \<open>met\<close>.\<close>

definition fresh_deps :: "registry \<Rightarrow> string set \<Rightarrow> string list \<Rightarrow> string set \<Rightarrow> bool" where
  "fresh_deps reg met deps met' \<longleftrightarrow>
     distinct deps \<and> set deps \<inter> met = {} \<and> met' = met \<union> set deps
       \<and> set deps \<subseteq> dom (map_of reg)"

text \<open>The raw bytes behind a string of \<open>0x\<close> and hexadecimal digits, and the
  rendering of a 32-byte value as 64 hexadecimal digits, zero-padded on the left.\<close>

definition raw_bytes :: "string \<Rightarrow> byte list" where
  "raw_bytes h = Buffer_from_hex (slice_from h 2)"


text \<open>The wording of the specification for the fields of a record: a declared field is
  unset when reading it gives \<open>undefined\<close>; its encoding is
  \<open>encodeField(field.type, record[field.name])\<close>.\<close>

definition field_is_unset :: "capabilities \<Rightarrow> jsval \<Rightarrow> EIP712StructField \<Rightarrow> bool" where
  "field_is_unset ext payload field \<longleftrightarrow> getProp ext payload (name field) = Inr Undefined"

definition encoded_field ::
    "capabilities \<Rightarrow> registry \<Rightarrow> jsval \<Rightarrow> EIP712StructField \<Rightarrow> error + (string \<times> jsval)" where
  "encoded_field ext reg payload field =
     (case getProp ext payload (name field) of
        Inl e \<Rightarrow> Inl e
      | Inr v \<Rightarrow>
          if is_plain_object payload then encodeDataTypeField ext reg (type field) v
          else foreign_field ext reg (type field) v)"

definition field_encodes :: "capabilities \<Rightarrow> registry \<Rightarrow> jsval \<Rightarrow> EIP712StructField \<Rightarrow> bool" where
  "field_encodes ext reg payload field \<longleftrightarrow>
     \<not> field_is_unset ext payload field \<and> \<not> isl (encoded_field ext reg payload field)"

text \<open>The wording of the specification for the types of a payload: a claimed field
  matches when the registered schema has a field of that name with the same type string;
  an entry is in order when its name is registered and every field it claims matches.\<close>

definition field_matches :: "EIP712Struct \<Rightarrow> EIP712StructField \<Rightarrow> bool" where
  "field_matches registered field \<longleftrightarrow>
     (case find (\<lambda>eq_field. name eq_field = name field) registered of
        None \<Rightarrow> False
      | Some eq_field \<Rightarrow> type field = type eq_field)"

definition type_entry_ok :: "registry \<Rightarrow> (string \<times> EIP712Struct) list \<Rightarrow> string \<Rightarrow> bool" where
  "type_entry_ok reg payload_types ty \<longleftrightarrow>
     (case map_of reg ty of
        None \<Rightarrow> False
      | Some registered \<Rightarrow>
          (case map_of payload_types ty of
             None \<Rightarrow> False
           | Some current_type \<Rightarrow> list_all (field_matches registered) current_type))"

section \<open>Example data\<close>

text \<open>Stand-ins for the external collaborators, to evaluate examples: the digest of a
  byte sequence is the sum of its bytes modulo 256, plus one, the ABI encoding is the type
  names and the bytes of the string values in order, the signer returns the lengths of
  key and digest. A value that is not a plain object has no properties.\<close>

fun example_value_bytes :: "jsval \<Rightarrow> byte list" where
  "example_value_bytes (Str str) = Buffer_from_string str"
| "example_value_bytes (Number n) = [of_int n]"
| "example_value_bytes other = []"

definition example_capabilities :: capabilities where
  "example_capabilities =
     \<lparr>keccak = (\<lambda>bytes. ucast (sum_list bytes) + 1),
      arrayify = (\<lambda>v. case v of Str str \<Rightarrow> Some (Buffer_from_hex (slice_from str 2)) | _ \<Rightarrow> None),
      buffer_of_value = (\<lambda>v. None),
      object_toString = (\<lambda>v. Some ''[object Object]''),
      abi_encode = (\<lambda>tys vals.
        if length tys = length vals
        then Some (concat (map (\<lambda>(t, v). Buffer_from_string t @ example_value_bytes v) (zip tys vals)))
        else None),
      signDigest = (\<lambda>key digest.
        Some \<lparr>ec_r = of_nat (length key), ec_s = of_nat (length digest), ec_v = 27\<rparr>),
      recoverAddress = (\<lambda>digest signature. Some ''0x00''),
      foreign_property = (\<lambda>v key. Undefined),
      foreign_field = (\<lambda>reg ty v. Inl TypeError)\<rparr>"

text \<open>The schemas, domain and message of the mail example, and a registry whose two
  types refer to each other and to themselves.\<close>

definition Person :: EIP712Struct where
  "Person = [\<lparr>name = ''name'', type = ''string''\<rparr>, \<lparr>name = ''wallet'', type = ''address''\<rparr>]"

definition Mail :: EIP712Struct where
  "Mail = [\<lparr>name = ''from'', type = ''Person''\<rparr>, \<lparr>name = ''to'', type = ''Person''\<rparr>,
           \<lparr>name = ''contents'', type = ''string''\<rparr>]"

definition example_domain :: jsval where
  "example_domain = Obj [(''name'', Str ''Ether Mail''), (''version'', Str ''1''),
     (''chainId'', Number 1), (''verifyingContract'', Str ''0xCc'')]"

definition example_registry :: registry where
  "example_registry = [(''EIP712Domain'', EIP712DomainType), (''Mail'', Mail), (''Person'', Person)]"

definition example_signer :: EIP712Signer where
  "example_signer = \<lparr>structs = example_registry, signer_domain = example_domain\<rparr>"

definition example_message :: jsval where
  "example_message = Obj [(''from'', Obj [(''name'', Str ''Cow''), (''wallet'', Str ''0xCD'')]),
     (''to'', Obj [(''name'', Str ''Bob''), (''wallet'', Str ''0xbB'')]),
     (''contents'', Str ''Hello, Bob!'')]"

definition example_payload :: EIP712Payload where
  "example_payload = \<lparr>types = Some example_registry, primaryType = Some ''Mail'',
     message = Some example_message, domain = Some example_domain, extra_keys = []\<rparr>"

definition cyclic_registry :: registry where
  "cyclic_registry =
     [(''Node'', [\<lparr>name = ''next'', type = ''Node''\<rparr>, \<lparr>name = ''edges'', type = ''Edge[][]''\<rparr>,
                  \<lparr>name = ''weight'', type = ''uint256''\<rparr>]),
      (''Edge'', [\<lparr>name = ''target'', type = ''Node''\<rparr>, \<lparr>name = ''label'', type = ''string''\<rparr>])]"

text \<open>A payload with the key \<open>demain\<close> in place of \<open>domain\<close>, and one with a fifth key.\<close>

definition misnamed_payload :: EIP712Payload where
  "misnamed_payload = example_payload\<lparr>domain := None, extra_keys := [''demain'']\<rparr>"

definition oversized_payload :: EIP712Payload where
  "oversized_payload = example_payload\<lparr>extra_keys := [''nonce'']\<rparr>"

text \<open>Records with a nested record that lacks its fields, and with a value of the wrong
  kind before an unset field.\<close>

definition nested_incomplete :: jsval where
  "nested_incomplete = Obj [(''from'', Obj []), (''to'', Null), (''contents'', Str ''hi'')]"

definition wrong_kind_then_unset :: jsval where
  "wrong_kind_then_unset = Obj [(''next'', Null), (''edges'', Str ''none'')]"

text \<open>A record whose struct-typed fields are \<open>null\<close>, and payloads with too few type
  names and with an unregistered name after an entry that is in order.\<close>

definition null_record :: jsval where
  "null_record = Obj [(''from'', Null), (''to'', Null), (''contents'', Str ''hi'')]"

definition short_payload :: EIP712Payload where
  "short_payload = example_payload\<lparr>types := Some [(''Mail'', Mail), (''Person'', Person)]\<rparr>"

definition unknown_second_payload :: EIP712Payload where
  "unknown_second_payload = example_payload
     \<lparr>types := Some [(''EIP712Domain'', EIP712DomainType), (''Bogus'', []), (''Person'', Person)]\<rparr>"

text \<open>A registry with a type that \<open>Mail\<close> does not depend on, a payload that names it in
  place of \<open>Person\<close> and claims fewer fields, and a payload whose first entry claims an
  unknown field and whose second entry is not registered.\<close>

definition wide_registry :: registry where
  "wide_registry = example_registry @ [(''UselessType'', [\<lparr>name = ''useless'', type = ''bool''\<rparr>])]"

definition lenient_payload :: EIP712Payload where
  "lenient_payload = example_payload
     \<lparr>types := Some [(''EIP712Domain'', []), (''Mail'', [\<lparr>name = ''from'', type = ''Person''\<rparr>]),
                      (''UselessType'', [])]\<rparr>"

definition mismatch_first_payload :: EIP712Payload where
  "mismatch_first_payload = example_payload
     \<lparr>types := Some [(''Person'', [\<lparr>name = ''nickname'', type = ''string''\<rparr>]), (''Bogus'', []),
                      (''EIP712Domain'', EIP712DomainType)]\<rparr>"

text \<open>A schema with a field whose type is the name of a method that every object
  inherits, a registry in which the empty name is registered, and one with two structs of
  one-letter names.\<close>

definition inherited_registry :: registry where
  "inherited_registry =
     [(''EIP712Domain'', EIP712DomainType),
      (''Doc'', [\<lparr>name = ''title'', type = ''toString''\<rparr>])]"

definition empty_name_registry :: registry where
  "empty_name_registry =
     [(''EIP712Domain'', EIP712DomainType), ([], []),
      (''Doc'', [\<lparr>name = ''flag'', type = ''x''\<rparr>])]"


definition short_name_registry :: registry where
  "short_name_registry =
     [(''EIP712Domain'', EIP712DomainType),
      (''A'', [\<lparr>name = ''b'', type = ''B''\<rparr>]),
      (''B'', [\<lparr>name = ''x'', type = ''uint256''\<rparr>])]"

section \<open>Auxiliary facts\<close>

declare be_bytes.simps [simp del] toString_radix16.simps [simp del] decimal_nat.simps [simp del]
  padWithZeroes.simps [simp del] hex_value.simps [simp del]

subsection \<open>Hexadecimal strings\<close>

lemma hex_value_hex_digit: "d < 16 \<Longrightarrow> hex_value (hex_digit d) = Some d"
proof -
  assume small: "d < 16"
  have "list_all (\<lambda>d. hex_value (hex_digit d) = Some d) [0..<16]"
    by code_simp
  with small show ?thesis by (simp add: list_all_iff)
qed

lemma length_Buffer_toString_hex: "length (Buffer_toString_hex bytes) = 2 * length bytes"
  by (induction bytes) (auto simp: Buffer_toString_hex_def)


lemma Buffer_toString_hex_Cons:
  "Buffer_toString_hex (b # bytes) =
     hex_digit (unat b div 16) # hex_digit (unat b mod 16) # Buffer_toString_hex bytes"
  by (simp add: Buffer_toString_hex_def)

lemma byte_nibbles: "(word_of_nat (16 * (unat b div 16) + unat b mod 16) :: byte) = b"
  by simp

lemma unat_byte_div16: "unat (b :: byte) div 16 < 16"
proof -
  have "unat b < 256" using unsigned_less [of b] by simp
  then show ?thesis by simp
qed

lemma Buffer_from_hex_toString: "Buffer_from_hex (Buffer_toString_hex bytes) = bytes"
proof (induction bytes)
  case Nil
  then show ?case by (simp add: Buffer_toString_hex_def)
next
  case (Cons b bytes)
  have hi: "hex_value (hex_digit (unat b div 16)) = Some (unat b div 16)"
    by (rule hex_value_hex_digit) (rule unat_byte_div16)
  have lo: "hex_value (hex_digit (unat b mod 16)) = Some (unat b mod 16)"
    by (rule hex_value_hex_digit) simp
  show ?case
    unfolding Buffer_toString_hex_Cons Buffer_from_hex.simps hi lo Cons.IH
    using byte_nibbles [of b] by simp
qed

lemma slice_from_0x: "slice_from (''0x'' @ str) 2 = str"
  by (simp add: slice_from_def slice_def Let_def)

lemma length_be_fixed: "length (be_fixed k n) = k"
  by (induction k arbitrary: n) auto

lemma length_digest_bytes: "length (digest_bytes w) = 32"
  by (simp add: digest_bytes_def length_be_fixed)

lemma digest_of_hexlify: "Buffer_from_hex (slice_from (hexlify w) 2) = digest_bytes w"
  by (simp only: hexlify_def slice_from_0x Buffer_from_hex_toString)

lemma length_hexlify: "length (hexlify w) = 66"
  by (simp add: hexlify_def length_Buffer_toString_hex length_digest_bytes)

subsection \<open>Big-endian bytes\<close>

lemma BN_of_bytes_append:
  "BN_of_bytes (xs @ [b]) = BN_of_bytes xs * 256 + uint b"
  by (simp add: BN_of_bytes_def)

lemma uint_byte_of_nat_mod: "uint (word_of_nat (n mod 256) :: byte) = int (n mod 256)"
proof -
  have "unat (word_of_nat (n mod 256) :: byte) = n mod 256"
    by (simp add: unat_of_nat)
  then show ?thesis by (metis uint_nat)
qed

lemma BN_of_bytes_be_fixed: "n < 256 ^ k \<Longrightarrow> BN_of_bytes (be_fixed k n) = int n"
proof (induction k arbitrary: n)
  case 0
  then show ?case by (simp add: BN_of_bytes_def)
next
  case (Suc k)
  then have "n div 256 < 256 ^ k"
    by (simp add: less_mult_imp_div_less mult.commute)
  then have "BN_of_bytes (be_fixed k (n div 256)) = int (n div 256)" by (rule Suc.IH)
  then show ?case
    by (simp add: BN_of_bytes_append uint_byte_of_nat_mod zdiv_int zmod_int)
qed

lemma be_fixed_zero: "be_fixed k 0 = replicate k 0"
  by (induction k) (auto simp: replicate_append_same)





subsection \<open>Padding\<close>


lemma Buffer_toString_hex_zeros:
  "Buffer_toString_hex (replicate k 0) = replicate (2 * k) CHR ''0''"
  by (induction k) (auto simp: Buffer_toString_hex_def hex_digit_def)


subsection \<open>Two's complement and the rendering of a signature component\<close>

lemma BN_of_bytes_digest: "BN_of_bytes (digest_bytes w) = uint w"
proof -
  have "unat w < 2 ^ 256" using unsigned_less [of w] by simp
  also have "(2::nat) ^ 256 = 256 ^ 32" by simp
  finally have "BN_of_bytes (be_fixed 32 (unat w)) = int (unat w)"
    by (rule BN_of_bytes_be_fixed)
  then show ?thesis by (simp add: digest_bytes_def)
qed





subsection \<open>Array types\<close>

lemma lastIndexOf_from_hit:
  "take (length pat) (drop i str) = pat \<Longrightarrow> lastIndexOf_from str pat i = int i"
  by (cases i) auto

lemma lastIndexOf_from_hitD:
  "lastIndexOf_from str pat i = int i \<Longrightarrow> take (length pat) (drop i str) = pat"
proof (cases i)
  case 0
  assume "lastIndexOf_from str pat i = int i"
  with 0 show ?thesis by (auto split: if_splits)
next
  case (Suc j)
  assume hit: "lastIndexOf_from str pat i = int i"
  have "lastIndexOf_from str pat j \<le> int j" using lastIndexOf_from_bounds by blast
  with hit Suc show ?thesis by (auto split: if_splits)
qed

lemma isArrayType_suffix: "isArrayType (base @ ''[]'')"
  by (simp add: isArrayType_def lastIndexOf_def lastIndexOf_from_hit)

lemma extracted_type_suffix: "extracted_type (base @ ''[]'') = base"
  by (simp add: extracted_type_def lastIndexOf_def lastIndexOf_from_hit slice_def Let_def)

lemma isArrayType_iff: "isArrayType ty \<longleftrightarrow> length ty = 1 \<or> (\<exists>base. ty = base @ ''[]'')"
proof
  assume arr: "isArrayType ty"
  show "length ty = 1 \<or> (\<exists>base. ty = base @ ''[]'')"
  proof (cases "length ty < 2")
    case True
    with arr show ?thesis by (simp add: isArrayType_def lastIndexOf_def)
  next
    case False
    from False have "int (length ty - 2) = int (length ty) - 2" by simp
    moreover from arr False have "lastIndexOf_from ty ''[]'' (length ty - 2) = int (length ty) - 2"
      unfolding isArrayType_def lastIndexOf_def by (simp add: numeral_2_eq_2)
    ultimately have "lastIndexOf_from ty ''[]'' (length ty - 2) = int (length ty - 2)"
      by simp
    then have "take 2 (drop (length ty - 2) ty) = ''[]''"
      using lastIndexOf_from_hitD [of ty "''[]''" "length ty - 2"] by simp
    with False have "drop (length ty - 2) ty = ''[]''" by simp
    then have "ty = take (length ty - 2) ty @ ''[]''"
      by (metis append_take_drop_id)
    then show ?thesis by blast
  qed
next
  assume "length ty = 1 \<or> (\<exists>base. ty = base @ ''[]'')"
  then show "isArrayType ty"
  proof
    assume "length ty = 1"
    then show ?thesis by (simp add: isArrayType_def lastIndexOf_def)
  next
    assume "\<exists>base. ty = base @ ''[]''"
    then show ?thesis using isArrayType_suffix by blast
  qed
qed


subsection \<open>Registry lookups\<close>

lemma structs_get_Absent:
  "structs_get reg nm = Absent \<longleftrightarrow> map_of reg nm = None \<and> nm \<notin> set Object_prototype"
  by (auto simp: structs_get_def split: option.splits)

lemma structs_get_cong: "map_of reg = map_of reg' \<Longrightarrow> structs_get reg = structs_get reg'"
  by (rule ext) (simp add: structs_get_def)

lemma uint256_not_inherited: "''uint256'' \<notin> set Object_prototype"
  by (simp add: Object_prototype_def)

lemma EIP712Domain_not_inherited: "''EIP712Domain'' \<notin> set Object_prototype"
  by (simp add: Object_prototype_def)

subsection \<open>UTF-8\<close>


lemma utf8_bytes_ascii:
  "\<forall>c \<in> set str. of_char c < (128 :: nat) \<Longrightarrow> utf8_bytes str = map of_char str"
  by (induction str) (auto simp: utf8_bytes_def utf8_code_point_def of_nat_of_char)

subsection \<open>Dependency resolution\<close>

declare getDependenciesOf.simps [simp del]

lemma getDependenciesOf_array:
  "isArrayType ty \<Longrightarrow> getDependenciesOf reg ty met = getDependenciesOf reg (extracted_type ty) met"
  by (subst getDependenciesOf.simps) simp

lemma getDependenciesOf_stop:
  "\<not> isArrayType ty \<Longrightarrow> ty \<in> met \<or> structs_get reg ty = Absent \<Longrightarrow>
     getDependenciesOf reg ty met = Inr ([], met)"
  by (subst getDependenciesOf.simps) simp

lemma getDependenciesOf_struct:
  "\<not> isArrayType ty \<Longrightarrow> ty \<notin> met \<Longrightarrow> map_of reg ty = Some flds \<Longrightarrow>
     getDependenciesOf reg ty met = getDependenciesOf_fields reg flds [ty] (insert ty met)"
  by (subst getDependenciesOf.simps) (simp add: structs_get_def)

lemma getDependenciesOf_inherited:
  "\<not> isArrayType ty \<Longrightarrow> ty \<notin> met \<Longrightarrow> structs_get reg ty = Inherited \<Longrightarrow>
     getDependenciesOf reg ty met = Inl TypeError"
  by (subst getDependenciesOf.simps) simp

text \<open>The only error of the resolver is the \<open>TypeError\<close> of the runtime.\<close>

lemma getDependenciesOf_Inl:
  "getDependenciesOf reg ty met = Inl e \<Longrightarrow> e = TypeError"
  "getDependenciesOf_fields reg flds result met = Inl e \<Longrightarrow> e = TypeError"
proof (induction reg ty met and reg flds result met
       rule: getDependenciesOf_getDependenciesOf_fields.induct)
  case (1 reg ty met)
  show ?case
  proof (cases "isArrayType ty")
    case True
    with 1 show ?thesis by (simp add: getDependenciesOf_array)
  next
    case False
    show ?thesis
    proof (cases "ty \<in> met \<or> structs_get reg ty = Absent")
      case True
      with False "1.prems" show ?thesis by (simp add: getDependenciesOf_stop)
    next
      case go: False
      show ?thesis
      proof (cases "structs_get reg ty")
        case Absent
        with go show ?thesis by simp
      next
        case Inherited
        with False go "1.prems" show ?thesis by (simp add: getDependenciesOf_inherited)
      next
        case (Own flds)
        then have "map_of reg ty = Some flds" by (simp add: structs_get_Own)
        with False go "1.prems"
        have "getDependenciesOf_fields reg flds [ty] (insert ty met) = Inl e"
          by (simp add: getDependenciesOf_struct)
        with "1.IH"(2) [OF False go Own] show ?thesis by simp
      qed
    qed
  qed
next
  case (2 reg result met)
  then show ?case by simp
next
  case (3 reg field rest result met)
  show ?case
  proof (cases "getDependenciesOf reg (type field) met")
    case (Inl e')
    with "3.prems" "3.IH"(1) show ?thesis by simp
  next
    case (Inr found)
    obtain deps met' where found: "found = (deps, met')" by (cases found)
    with Inr "3.prems"
    have "getDependenciesOf_fields reg rest (result @ deps) met' = Inl e" by simp
    with "3.IH"(2) [OF Inr found [symmetric]] show ?thesis by simp
  qed
qed

lemma getDependenciesOf_fresh:
  "getDependenciesOf reg ty met = Inr (deps, met') \<Longrightarrow> fresh_deps reg met deps met'"
  "getDependenciesOf_fields reg flds result met = Inr (out, met') \<Longrightarrow>
     \<exists>more. out = result @ more \<and> fresh_deps reg met more met'"
proof (induction reg ty met and reg flds result met arbitrary: deps met' and out met'
       rule: getDependenciesOf_getDependenciesOf_fields.induct)
  case (1 reg ty met)
  show ?case
  proof (cases "isArrayType ty")
    case True
    with 1 show ?thesis by (simp add: getDependenciesOf_array)
  next
    case False
    show ?thesis
    proof (cases "ty \<in> met \<or> structs_get reg ty = Absent")
      case True
      with False "1.prems" show ?thesis by (auto simp: getDependenciesOf_stop fresh_deps_def)
    next
      case go: False
      show ?thesis
      proof (cases "structs_get reg ty")
        case Absent
        with go show ?thesis by simp
      next
        case Inherited
        with False go "1.prems" show ?thesis by (simp add: getDependenciesOf_inherited)
      next
        case (Own flds)
        then have flds: "map_of reg ty = Some flds" by (simp add: structs_get_Own)
        with False go "1.prems"
        have "getDependenciesOf_fields reg flds [ty] (insert ty met) = Inr (deps, met')"
          by (simp add: getDependenciesOf_struct)
        from "1.IH"(2) [OF False go Own this]
        obtain more where deps: "deps = [ty] @ more"
          and fresh: "fresh_deps reg (insert ty met) more met'" by blast
        from go flds fresh have "fresh_deps reg met (ty # more) met'"
          by (auto simp: fresh_deps_def)
        with deps show ?thesis by simp
      qed
    qed
  qed
next
  case (2 reg result met)
  then show ?case by (auto simp: fresh_deps_def)
next
  case (3 reg field rest result met)
  from "3.prems" obtain deps mid where
    first: "getDependenciesOf reg (type field) met = Inr (deps, mid)"
    and run: "getDependenciesOf_fields reg rest (result @ deps) mid = Inr (out, met')"
    by (auto split: sum.splits)
  from "3.IH"(1) [OF first] have fresh1: "fresh_deps reg met deps mid" .
  from "3.IH"(2) [OF first refl run] obtain more
    where out: "out = (result @ deps) @ more" and fresh2: "fresh_deps reg mid more met'"
    by blast
  from fresh1 fresh2 have "fresh_deps reg met (deps @ more) met'"
    by (auto simp: fresh_deps_def)
  with out show ?case by auto
qed



lemma getDependenciesOf_bounded:
  assumes "getDependenciesOf reg ty met = Inr (deps, met')"
  shows "length deps \<le> unseen reg met"
proof -
  from getDependenciesOf_fresh(1) [OF assms]
  have d: "distinct deps" and new: "set deps \<inter> met = {}" and reg: "set deps \<subseteq> dom (map_of reg)"
    by (simp_all add: fresh_deps_def)
  from reg new have "set deps \<subseteq> set (map fst reg) - met"
    by (auto simp: dom_map_of_conv_image_fst)
  then have "card (set deps) \<le> card (set (map fst reg) - met)"
    by (intro card_mono) auto
  with d show ?thesis by (simp add: unseen_def distinct_card)
qed



text \<open>The result depends on the registry only through its lookups.\<close>

lemma getDependenciesOf_cong:
  "map_of reg = map_of reg' \<Longrightarrow> getDependenciesOf reg ty met = getDependenciesOf reg' ty met"
  "map_of reg = map_of reg' \<Longrightarrow>
     getDependenciesOf_fields reg flds result met = getDependenciesOf_fields reg' flds result met"
proof (induction reg ty met and reg flds result met
       rule: getDependenciesOf_getDependenciesOf_fields.induct)
  case (1 reg ty met)
  note same = structs_get_cong [OF "1.prems"]
  show ?case
  proof (cases "isArrayType ty")
    case True
    with 1 show ?thesis by (simp add: getDependenciesOf_array)
  next
    case False
    show ?thesis
    proof (cases "ty \<in> met \<or> structs_get reg ty = Absent")
      case True
      with False same show ?thesis by (simp add: getDependenciesOf_stop)
    next
      case go: False
      show ?thesis
      proof (cases "structs_get reg ty")
        case Absent
        with go show ?thesis by simp
      next
        case Inherited
        with False go same show ?thesis by (simp add: getDependenciesOf_inherited)
      next
        case (Own flds)
        then have flds: "map_of reg ty = Some flds" by (simp add: structs_get_Own)
        with "1.prems" have flds': "map_of reg' ty = Some flds" by simp
        from "1.IH"(2) [OF False go Own "1.prems"]
        have "getDependenciesOf_fields reg flds [ty] (insert ty met)
                = getDependenciesOf_fields reg' flds [ty] (insert ty met)" .
        with False go flds flds' show ?thesis
          by (simp add: getDependenciesOf_struct)
      qed
    qed
  qed
next
  case (2 reg result met)
  then show ?case by simp
next
  case (3 reg field rest result met)
  note same = "3.IH"(1) [OF "3.prems"]
  show ?case
  proof (cases "getDependenciesOf reg (type field) met")
    case (Inl e)
    moreover from Inl same have "getDependenciesOf reg' (type field) met = Inl e" by simp
    ultimately show ?thesis by simp
  next
    case (Inr found)
    obtain deps met' where found: "found = (deps, met')" by (cases found)
    from Inr same have call': "getDependenciesOf reg' (type field) met = Inr found"
      by simp
    from "3.IH"(2) [OF Inr found [symmetric] "3.prems"] Inr call' found show ?thesis by simp
  qed
qed


subsection \<open>The type signature\<close>


lemma encodeType_loop_cong:
  "map_of reg = map_of reg' \<Longrightarrow> encodeType_loop reg ts result = encodeType_loop reg' ts result"
  by (induction ts arbitrary: result) (auto simp: structs_get_def split: option.splits)

lemma encodeType_cong: "map_of reg = map_of reg' \<Longrightarrow> encodeType reg ty = encodeType reg' ty"
  by (auto simp: encodeType_def getDependenciesOf_cong(1) [of reg reg']
      encodeType_loop_cong [of reg reg'] split: sum.splits)






subsection \<open>Registration\<close>

lemma addTypes_Inr:
  "addTypes reg tys = Inr reg' \<Longrightarrow>
     reg' = reg @ tys \<and> distinct (map fst tys)
       \<and> (\<forall>n \<in> set (map fst tys). map_of reg n = None \<and> n \<notin> set Object_prototype)"
proof (induction tys arbitrary: reg)
  case Nil
  then show ?case by simp
next
  case (Cons entry rest)
  from Cons.prems have new: "map_of reg (fst entry) = None" "fst entry \<notin> set Object_prototype"
    and rest: "addTypes (reg @ [(fst entry, snd entry)]) rest = Inr reg'"
    by (auto simp: addType_def structs_get_Absent split: if_splits)
  from Cons.IH [OF rest] have eq: "reg' = (reg @ [(fst entry, snd entry)]) @ rest"
    and d: "distinct (map fst rest)"
    and none: "\<forall>n \<in> set (map fst rest).
        map_of (reg @ [(fst entry, snd entry)]) n = None \<and> n \<notin> set Object_prototype"
    by auto
  from none have "fst entry \<notin> set (map fst rest)"
    by (auto simp: map_add_def split: option.splits)
  moreover from none have "\<forall>n \<in> set (map fst rest). map_of reg n = None \<and> n \<notin> set Object_prototype"
    by (auto simp: map_add_def split: option.splits if_splits)
  ultimately show ?case using eq d new by auto
qed

lemma addTypes_succeeds:
  "distinct (map fst tys) \<Longrightarrow>
   \<forall>n \<in> set (map fst tys). map_of reg n = None \<and> n \<notin> set Object_prototype \<Longrightarrow>
     addTypes reg tys = Inr (reg @ tys)"
proof (induction tys arbitrary: reg)
  case Nil
  then show ?case by simp
next
  case (Cons entry rest)
  have "\<forall>n \<in> set (map fst rest).
      map_of (reg @ [(fst entry, snd entry)]) n = None \<and> n \<notin> set Object_prototype"
  proof
    fix n
    assume n: "n \<in> set (map fst rest)"
    from Cons.prems have "fst entry \<notin> set (map fst rest)" by simp
    with n have "n \<noteq> fst entry" by blast
    moreover from n Cons.prems have "map_of reg n = None" and "n \<notin> set Object_prototype" by auto
    ultimately show "map_of (reg @ [(fst entry, snd entry)]) n = None \<and> n \<notin> set Object_prototype"
      by (simp add: map_add_def)
  qed
  with Cons.prems have "addTypes (reg @ [(fst entry, snd entry)]) rest
      = Inr ((reg @ [(fst entry, snd entry)]) @ rest)"
    by (intro Cons.IH) auto
  with Cons.prems show ?case by (simp add: addType_def structs_get_Absent)
qed


subsection \<open>The shape check\<close>

lemma verifyMainPayloadField_loop_eq:
  "verifyMainPayloadField_loop reqs keys =
     (if set reqs \<subseteq> set keys then Inr () else Inl InvalidPayloadShape)"
  by (induction reqs) auto

lemma verifyMainPayloadField_cases:
  "verifyMainPayloadField payload = Inr () \<or> verifyMainPayloadField payload = Inl InvalidPayloadShape"
  by (simp add: verifyMainPayloadField_def verifyMainPayloadField_loop_eq)

lemma verifyMainPayloadField_Inr:
  assumes "verifyMainPayloadField payload = Inr ()"
  shows "\<exists>dmn tys msg primary. domain payload = Some dmn \<and> types payload = Some tys
     \<and> message payload = Some msg \<and> primaryType payload = Some primary
     \<and> Object_keys payload = [''domain'', ''types'', ''message'', ''primaryType'']"
proof -
  let ?extra = "remdups (filter (\<lambda>key. key \<notin> set REQUIRED_FIELDS) (extra_keys payload))"
  have extra: "set ?extra \<inter> set REQUIRED_FIELDS = {}" by auto
  from assms have len: "length (Object_keys payload) = 4"
    and all: "set REQUIRED_FIELDS \<subseteq> set (Object_keys payload)"
    by (auto simp: verifyMainPayloadField_def verifyMainPayloadField_loop_eq REQUIRED_FIELDS_def
        split: if_splits)
  from all extra have "domain payload \<noteq> None"
    by (cases "domain payload") (auto simp: Object_keys_def REQUIRED_FIELDS_def split: option.splits)
  moreover from all extra have "types payload \<noteq> None"
    by (cases "types payload") (auto simp: Object_keys_def REQUIRED_FIELDS_def split: option.splits)
  moreover from all extra have "message payload \<noteq> None"
    by (cases "message payload") (auto simp: Object_keys_def REQUIRED_FIELDS_def split: option.splits)
  moreover from all extra have "primaryType payload \<noteq> None"
    by (cases "primaryType payload") (auto simp: Object_keys_def REQUIRED_FIELDS_def split: option.splits)
  ultimately obtain dmn tys msg primary where present: "domain payload = Some dmn"
    "types payload = Some tys" "message payload = Some msg" "primaryType payload = Some primary"
    by auto
  with len have "?extra = []" by (simp add: Object_keys_def)
  with present show ?thesis by (simp add: Object_keys_def)
qed

lemma verifyMainPayloadField_rejects:
  assumes "set (Object_keys payload) \<noteq> set REQUIRED_FIELDS"
  shows "verifyMainPayloadField payload = Inl InvalidPayloadShape"
proof (rule ccontr)
  assume "verifyMainPayloadField payload \<noteq> Inl InvalidPayloadShape"
  with verifyMainPayloadField_cases [of payload] have "verifyMainPayloadField payload = Inr ()"
    by blast
  from verifyMainPayloadField_Inr [OF this] have "set (Object_keys payload) = set REQUIRED_FIELDS"
    by (auto simp: REQUIRED_FIELDS_def)
  with assms show False by contradiction
qed

subsection \<open>Hashes\<close>

declare encodeDataTypeField.simps [simp del] hashData.simps [simp del] encodeData.simps [simp del]

lemma hashData_Inr:
  "hashData ext reg ty dat = Inr h \<longleftrightarrow>
     (\<exists>bytes. encodeData ext reg ty dat = Inr bytes \<and> h = hexlify (keccak ext bytes))"
  by (auto simp: hashData.simps utils_keccak256_def split: sum.splits)

lemma raw_bytes_hashData:
  "hashData ext reg ty dat = Inr h \<Longrightarrow> length (raw_bytes h) = 32 \<and> h = ''0x'' @ Buffer_toString_hex (raw_bytes h)"
proof -
  assume "hashData ext reg ty dat = Inr h"
  then obtain bytes where h: "h = hexlify (keccak ext bytes)"
    unfolding hashData_Inr by blast
  then have "raw_bytes h = digest_bytes (keccak ext bytes)"
    by (simp only: raw_bytes_def digest_of_hexlify)
  with h show ?thesis by (simp only: length_digest_bytes hexlify_def simp_thms)
qed

lemma hexlify_inject: "hexlify w = hexlify w' \<Longrightarrow> w = w'"
proof -
  assume "hexlify w = hexlify w'"
  then have "Buffer_from_hex (slice_from (hexlify w) 2) = Buffer_from_hex (slice_from (hexlify w') 2)"
    by simp
  then have "digest_bytes w = digest_bytes w'" by (simp only: digest_of_hexlify)
  then have "BN_of_bytes (digest_bytes w) = BN_of_bytes (digest_bytes w')" by simp
  then show "w = w'" by (simp only: BN_of_bytes_digest word_uint_eq_iff)
qed

lemma hexlify_zero: "hexlify 0 = B32Z"
proof -
  have "B32Z = ''0x'' @ replicate 64 CHR ''0''" by code_simp
  moreover have "hexlify 0 = ''0x'' @ replicate (2 * 32) CHR ''0''"
    by (simp only: hexlify_def digest_bytes_def unsigned_0 be_fixed_zero Buffer_toString_hex_zeros)
  ultimately show ?thesis by simp
qed


subsection \<open>Branches of the field encoder\<close>

lemma encodeDataTypeField_struct_Null:
  "map_of reg ty = Some flds \<Longrightarrow> encodeDataTypeField ext reg ty Null = Inr (''bytes32'', Str B32Z)"
  by (subst encodeDataTypeField.simps) (simp add: structs_get_def)

lemma encodeDataTypeField_struct:
  "map_of reg ty = Some flds \<Longrightarrow> val \<noteq> Null \<Longrightarrow>
     encodeDataTypeField ext reg ty val =
       (case hashData ext reg ty val of Inl e \<Rightarrow> Inl e | Inr h \<Rightarrow> Inr (''bytes32'', Str h))"
  by (subst encodeDataTypeField.simps) (simp add: structs_get_def)

lemma encodeDataTypeField_uint256_Number:
  "map_of reg ''uint256'' = None \<Longrightarrow>
     encodeDataTypeField ext reg ''uint256'' (Number n) = Inr (''uint256'', Number n)"
  by (subst encodeDataTypeField.simps)
     (simp add: not_isArrayType_uint256 structs_get_def uint256_not_inherited)

lemma encodeDataTypeField_uint256_BN:
  "map_of reg ''uint256'' = None \<Longrightarrow>
     encodeDataTypeField ext reg ''uint256'' (BN n) = Inr (''uint256'', Str (BN_toString n))"
  by (subst encodeDataTypeField.simps)
     (simp add: not_isArrayType_uint256 value_toString_def structs_get_def uint256_not_inherited)

subsection \<open>Signing\<close>





subsection \<open>The loop over the fields of a record\<close>

lemma field_encodes_iff:
  "field_encodes ext reg payload field \<longleftrightarrow>
     (\<exists>v r. getProp ext payload (name field) = Inr v \<and> v \<noteq> Undefined
        \<and> (if is_plain_object payload then encodeDataTypeField ext reg (type field) v
            else foreign_field ext reg (type field) v) = Inr r
        \<and> encoded_field ext reg payload field = Inr r)"
  by (cases "getProp ext payload (name field)"; cases "encoded_field ext reg payload field")
     (auto simp: field_encodes_def field_is_unset_def encoded_field_def)

lemma encodeData_fields_prefix:
  "\<forall>g \<in> set pre. field_encodes ext reg payload g \<Longrightarrow>
     encodeData_fields ext reg nm (pre @ rest) payload tys dat =
       encodeData_fields ext reg nm rest payload
         (tys @ map (\<lambda>g. fst (projr (encoded_field ext reg payload g))) pre)
         (dat @ map (\<lambda>g. snd (projr (encoded_field ext reg payload g))) pre)"
proof (induction pre arbitrary: tys dat)
  case Nil
  then show ?case by simp
next
  case (Cons g pre)
  from Cons.prems have "field_encodes ext reg payload g" by simp
  then obtain v r where "getProp ext payload (name g) = Inr v" "v \<noteq> Undefined"
    "(if is_plain_object payload then encodeDataTypeField ext reg (type g) v
      else foreign_field ext reg (type g) v) = Inr r"
    "encoded_field ext reg payload g = Inr r"
    unfolding field_encodes_iff by blast
  moreover from Cons.prems have "\<forall>g \<in> set pre. field_encodes ext reg payload g" by simp
  ultimately show ?case by (simp add: Cons.IH)
qed

lemma encodeData_fields_unset:
  "field_is_unset ext payload field \<Longrightarrow>
     encodeData_fields ext reg nm (field # post) payload tys dat = Inl (MissingField nm (name field))"
  by (simp add: field_is_unset_def)

lemma getProp_Inl: "getProp ext payload key = Inl e \<Longrightarrow> e = TypeError"
  by (cases payload) auto

lemma encodeData_fields_MissingField:
  "encodeData_fields ext reg nm flds payload tys dat = Inl (MissingField t f) \<Longrightarrow>
     (t = nm \<and> (\<exists>g \<in> set flds. name g = f \<and> field_is_unset ext payload g))
     \<or> (\<exists>g \<in> set flds. \<not> field_is_unset ext payload g
           \<and> encoded_field ext reg payload g = Inl (MissingField t f))"
proof (induction flds arbitrary: tys dat)
  case Nil
  then show ?case by simp
next
  case (Cons g flds)
  show ?case
  proof (cases "getProp ext payload (name g)")
    case (Inl e)
    with Cons.prems getProp_Inl [of ext payload "name g" e] show ?thesis by simp
  next
    case (Inr v)
    show ?thesis
    proof (cases "v = Undefined")
      case True
      with Inr Cons.prems show ?thesis by (auto simp: field_is_unset_def)
    next
      case False
      show ?thesis
      proof (cases "if is_plain_object payload then encodeDataTypeField ext reg (type g) v
                    else foreign_field ext reg (type g) v")
        case (Inl e)
        with Inr False Cons.prems show ?thesis
          by (auto simp: field_is_unset_def encoded_field_def split: if_splits)
      next
        case r: (Inr r)
        with Inr False Cons.prems
        have "encodeData_fields ext reg nm flds payload (tys @ [fst r]) (dat @ [snd r])
            = Inl (MissingField t f)" by (simp split: if_splits)
        from Cons.IH [OF this] show ?thesis by auto
      qed
    qed
  qed
qed

lemma encodeData_registered:
  "map_of reg nm = Some flds \<Longrightarrow>
     encodeData ext reg nm payload =
       (case hashType ext reg nm of
          Inl e \<Rightarrow> Inl e
        | Inr typeHash \<Rightarrow>
            (case encodeData_fields ext reg nm flds payload [''bytes32''] [Str typeHash] of
               Inl e \<Rightarrow> Inl e
             | Inr (encodedTypes, encodedData) \<Rightarrow>
                 (case abi_encode ext encodedTypes encodedData of
                    None \<Rightarrow> Inl ExternalFailure
                  | Some bytes \<Rightarrow> Inr bytes)))"
  by (subst encodeData.simps) (simp add: structs_get_def split: sum.splits)

subsection \<open>The check of the claimed types\<close>

lemma required_types_fold:
  "distinct (map fst req) \<Longrightarrow>
     distinct (map fst (fold (\<lambda>dep req. AList.update dep (f dep) req) deps req))
     \<and> set (map fst (fold (\<lambda>dep req. AList.update dep (f dep) req) deps req))
         = set (map fst req) \<union> set deps"
proof (induction deps arbitrary: req)
  case Nil
  then show ?case by simp
next
  case (Cons dep deps)
  from Cons.prems have "distinct (map fst (AList.update dep (f dep) req))"
    by (rule distinct_update)
  from Cons.IH [OF this] show ?case by (auto simp: dom_update)
qed

lemma length_required_types:
  "length (required_types reg deps) = card (insert ''EIP712Domain'' (set deps))"
proof -
  have "distinct (map fst [(''EIP712Domain'', structs_get reg ''EIP712Domain'')])" by simp
  from required_types_fold [OF this, of "structs_get reg" deps]
  have "distinct (map fst (required_types reg deps))"
    and "set (map fst (required_types reg deps)) = insert ''EIP712Domain'' (set deps)"
    by (simp_all add: required_types_def)
  then show ?thesis by (metis distinct_card length_map)
qed

lemma verifyTypes_fields_prefix:
  "list_all (field_matches registered) fpre \<Longrightarrow>
     verifyTypes_fields ty (Own registered) (fpre @ rest) = verifyTypes_fields ty (Own registered) rest"
  by (induction fpre) (auto simp: field_matches_def split: option.splits)

lemma verifyTypes_fields_mismatch:
  "\<not> field_matches registered field \<Longrightarrow>
     verifyTypes_fields ty (Own registered) (field # rest) = Inl (FieldMismatch ty (name field))"
  by (auto simp: field_matches_def split: option.splits)

lemma verifyTypes_loop_prefix:
  "\<forall>k \<in> set pre. type_entry_ok reg payload_types k \<Longrightarrow>
     verifyTypes_loop reg payload_types (pre @ rest) = verifyTypes_loop reg payload_types rest"
proof (induction pre)
  case Nil
  then show ?case by simp
next
  case (Cons k pre)
  from Cons.prems have "type_entry_ok reg payload_types k" by simp
  then obtain registered current_type where "map_of reg k = Some registered"
    "map_of payload_types k = Some current_type" "list_all (field_matches registered) current_type"
    by (auto simp: type_entry_ok_def split: option.splits)
  moreover from this have "verifyTypes_fields k (Own registered) current_type = Inr ()"
    using verifyTypes_fields_prefix [of registered current_type k "[]"] by simp
  ultimately show ?case using Cons by (simp add: structs_get_def)
qed

section \<open>The claims\<close>

text \<open>
  Claim C1, as amended. For a payload with exactly the four recognised keys,
  \<open>encode(payload, false)\<close> is the hexadecimal rendering of the two bytes \<open>0x19 0x01\<close>,
  followed by the 32 bytes of \<open>hashStruct("EIP712Domain", payload.domain)\<close> and, unless the
  primary type is \<open>EIP712Domain\<close>, by the 32 bytes of
  \<open>hashStruct(primaryType, payload.message)\<close>; an error of either hash is the error of
  \<open>encode\<close>. A result has 34 raw bytes when the primary type is \<open>EIP712Domain\<close> and 66
  otherwise.
\<close>

theorem encode_preimage:
  assumes "verifyMainPayloadField payload = Inr ()"
  shows "\<exists>dmn msg primary.
     domain payload = Some dmn \<and> message payload = Some msg \<and> primaryType payload = Some primary
     \<and> encode ext signer payload False =
         (case hashData ext (structs signer) ''EIP712Domain'' dmn of
            Inl e \<Rightarrow> Inl e
          | Inr domain_hash \<Rightarrow>
              if primary = ''EIP712Domain''
              then Inr (''0x'' @ Buffer_toString_hex ([0x19, 0x01] @ raw_bytes domain_hash))
              else (case hashData ext (structs signer) primary msg of
                      Inl e \<Rightarrow> Inl e
                    | Inr message_hash \<Rightarrow>
                        Inr (''0x'' @ Buffer_toString_hex
                               ([0x19, 0x01] @ raw_bytes domain_hash @ raw_bytes message_hash))))
     \<and> (\<forall>out. encode ext signer payload False = Inr out \<longrightarrow>
           (\<exists>bytes. out = ''0x'' @ Buffer_toString_hex bytes
              \<and> length bytes = (if primary = ''EIP712Domain'' then 34 else 66)))"
proof -
  from verifyMainPayloadField_Inr [OF assms] obtain dmn msg primary
    where present: "domain payload = Some dmn" "message payload = Some msg"
      "primaryType payload = Some primary"
    by blast
  have prefix: "Buffer_from_hex ''1901'' = [0x19, 0x01]"
    by (simp add: hex_value.simps)
  let ?rhs = "case hashData ext (structs signer) ''EIP712Domain'' dmn of
            Inl e \<Rightarrow> Inl e
          | Inr domain_hash \<Rightarrow>
              if primary = ''EIP712Domain''
              then Inr (''0x'' @ Buffer_toString_hex ([0x19, 0x01] @ raw_bytes domain_hash))
              else (case hashData ext (structs signer) primary msg of
                      Inl e \<Rightarrow> Inl e
                    | Inr message_hash \<Rightarrow>
                        Inr (''0x'' @ Buffer_toString_hex
                               ([0x19, 0x01] @ raw_bytes domain_hash @ raw_bytes message_hash)))"
  have eq: "encode ext signer payload False = ?rhs"
    unfolding encode_def assms present property_value_def prefix raw_bytes_def Let_def
    by (simp split: sum.splits)
  have "\<exists>bytes. out = ''0x'' @ Buffer_toString_hex bytes
      \<and> length bytes = (if primary = ''EIP712Domain'' then 34 else 66)"
    if out: "encode ext signer payload False = Inr out" for out
  proof -
    from out eq obtain domain_hash
      where dh: "hashData ext (structs signer) ''EIP712Domain'' dmn = Inr domain_hash"
      by (auto split: sum.splits)
    from raw_bytes_hashData [OF dh] have dlen: "length (raw_bytes domain_hash) = 32" by simp
    show ?thesis
    proof (cases "primary = ''EIP712Domain''")
      case True
      with out eq dh have "out = ''0x'' @ Buffer_toString_hex ([0x19, 0x01] @ raw_bytes domain_hash)"
        by simp
      with True dlen show ?thesis by (intro exI conjI) auto
    next
      case False
      with out eq dh obtain message_hash
        where mh: "hashData ext (structs signer) primary msg = Inr message_hash"
        by (auto split: sum.splits)
      from raw_bytes_hashData [OF mh] have mlen: "length (raw_bytes message_hash) = 32" by simp
      from False out eq dh mh have "out = ''0x'' @ Buffer_toString_hex
          ([0x19, 0x01] @ raw_bytes domain_hash @ raw_bytes message_hash)"
        by simp
      with False dlen mlen show ?thesis by (intro exI conjI) auto
    qed
  qed
  with present eq show ?thesis by blast
qed

theorem encode_preimage_witness:
  "verifyMainPayloadField example_payload = Inr ()
   \<and> encode example_capabilities example_signer example_payload False
       = Inr ''0x190100000000000000000000000000000000000000000000000000000000000000dc0000000000000000000000000000000000000000000000000000000000000025''
   \<and> (\<exists>bytes. ''0x190100000000000000000000000000000000000000000000000000000000000000dc0000000000000000000000000000000000000000000000000000000000000025''
          = ''0x'' @ Buffer_toString_hex bytes \<and> length bytes = 66)"
proof -
  have shape: "verifyMainPayloadField example_payload = Inr ()"
    by code_simp
  have primary: "primaryType example_payload = Some ''Mail''"
    by (simp add: example_payload_def)
  have out: "encode example_capabilities example_signer example_payload False
      = Inr ''0x190100000000000000000000000000000000000000000000000000000000000000dc0000000000000000000000000000000000000000000000000000000000000025''"
    by code_simp
  from encode_preimage [OF shape, of example_capabilities example_signer]
  obtain p where p: "primaryType example_payload = Some p"
    and len: "\<forall>out. encode example_capabilities example_signer example_payload False = Inr out \<longrightarrow>
           (\<exists>bytes. out = ''0x'' @ Buffer_toString_hex bytes
              \<and> length bytes = (if p = ''EIP712Domain'' then 34 else 66))"
    by blast
  from p primary have "p = ''Mail''" by simp
  then have "p \<noteq> ''EIP712Domain''" by simp
  with len out
  have "\<exists>bytes. ''0x190100000000000000000000000000000000000000000000000000000000000000dc0000000000000000000000000000000000000000000000000000000000000025''
          = ''0x'' @ Buffer_toString_hex bytes \<and> length bytes = 66"
    by (simp only: if_False simp_thms)
  with shape out show ?thesis by blast
qed

text \<open>
  Claim C1 as stated fails: for a payload with a fifth key both struct hashes exist, yet
  \<open>encode\<close> does not return their concatenation but raises \<open>InvalidPayloadShape\<close>.
\<close>

theorem encode_preimage_counterexample:
  "hashData example_capabilities (structs example_signer) ''EIP712Domain'' example_domain
     = Inr ''0x00000000000000000000000000000000000000000000000000000000000000dc''
   \<and> hashData example_capabilities (structs example_signer) ''Mail'' example_message
     = Inr ''0x0000000000000000000000000000000000000000000000000000000000000025''
   \<and> domain oversized_payload = Some example_domain
   \<and> message oversized_payload = Some example_message
   \<and> primaryType oversized_payload = Some ''Mail''
   \<and> encode example_capabilities example_signer oversized_payload False = Inl InvalidPayloadShape"
  by code_simp





text \<open>
  Claim C4. For a registered struct type, \<open>encodeField(T, null)\<close> is the constant \<open>B32Z\<close>,
  the all-zero 32-byte word, with nothing hashed; for any other value it is
  \<open>hashStruct(T, v)\<close> as a \<open>bytes32\<close> word, or the error of \<open>hashStruct\<close>; and a value other
  than \<open>null\<close> gets the all-zero word only if keccak-256 maps its ABI encoding to zero.
\<close>

theorem encodeDataTypeField_null_struct:
  assumes "map_of reg ty = Some flds"
  shows "encodeDataTypeField ext reg ty Null = Inr (''bytes32'', Str B32Z)
     \<and> B32Z = hexlify 0
     \<and> (val \<noteq> Null \<longrightarrow>
          encodeDataTypeField ext reg ty val =
            (case hashData ext reg ty val of
               Inl e \<Rightarrow> Inl e
             | Inr h \<Rightarrow> Inr (''bytes32'', Str h)))
     \<and> (val \<noteq> Null \<longrightarrow>
          (encodeDataTypeField ext reg ty val = Inr (''bytes32'', Str B32Z)
             \<longleftrightarrow> (\<exists>bytes. encodeData ext reg ty val = Inr bytes \<and> keccak ext bytes = 0)))"
proof -
  have zero: "encodeDataTypeField ext reg ty val = Inr (''bytes32'', Str B32Z)
      \<longleftrightarrow> (\<exists>bytes. encodeData ext reg ty val = Inr bytes \<and> keccak ext bytes = 0)"
    if "val \<noteq> Null"
  proof -
    from assms that have "encodeDataTypeField ext reg ty val = Inr (''bytes32'', Str B32Z)
        \<longleftrightarrow> hashData ext reg ty val = Inr (hexlify 0)"
      by (auto simp: encodeDataTypeField_struct hexlify_zero split: sum.splits)
    also have "\<dots> \<longleftrightarrow> (\<exists>bytes. encodeData ext reg ty val = Inr bytes \<and> keccak ext bytes = 0)"
      unfolding hashData_Inr by (metis hexlify_inject)
    finally show ?thesis .
  qed
  with assms show ?thesis
    by (simp add: encodeDataTypeField_struct_Null encodeDataTypeField_struct hexlify_zero)
qed

theorem encodeDataTypeField_null_struct_witness:
  "map_of example_registry ''Person'' = Some Person
   \<and> Obj [(''name'', Str ''Bob''), (''wallet'', Str ''0xbB'')] \<noteq> Null
   \<and> encodeDataTypeField example_capabilities example_registry ''Person'' Null
       = Inr (''bytes32'', Str ''0x0000000000000000000000000000000000000000000000000000000000000000'')
   \<and> encodeDataTypeField example_capabilities example_registry ''Person''
         (Obj [(''name'', Str ''Bob''), (''wallet'', Str ''0xbB'')])
       = Inr (''bytes32'', Str ''0x0000000000000000000000000000000000000000000000000000000000000007'')"
proof -
  have registered: "map_of example_registry ''Person'' = Some Person"
    by (simp add: example_registry_def)
  have h: "hashData example_capabilities example_registry ''Person''
         (Obj [(''name'', Str ''Bob''), (''wallet'', Str ''0xbB'')])
       = Inr ''0x0000000000000000000000000000000000000000000000000000000000000007''"
    by code_simp
  from encodeDataTypeField_null_struct [OF registered, of example_capabilities
      "Obj [(''name'', Str ''Bob''), (''wallet'', Str ''0xbB'')]"] h registered
  show ?thesis by (simp add: B32Z_def)
qed

text \<open>
  Claim C5, as amended. For a registered struct name whose type hash exists, and a record,
  where a declared field is unset when reading it from the record gives \<open>undefined\<close>:
  \<open>encodeStruct\<close> raises \<open>MissingField\<close> for a declared field of its own when that field
  is the first one unset and every declared field before it is set and encodes; a
  \<open>MissingField\<close> it raises is either for such a field or was raised by the encoding of
  one of its set fields (a nested record); \<open>null\<close> for a struct-typed field of a plain
  object is legal and encodes as the zero word; and when every declared field is set and
  encodes, the result is the ABI encoding of \<open>(bytes32, hashType(typeName))\<close> followed by
  the encoded fields in declared order.
\<close>

theorem encodeData_fields_checked:
  assumes "map_of reg nm = Some flds" and "hashType ext reg nm = Inr typeHash"
  shows "(flds = pre @ field # post \<and> (\<forall>g \<in> set pre. field_encodes ext reg payload g)
            \<and> field_is_unset ext payload field
          \<longrightarrow> encodeData ext reg nm payload = Inl (MissingField nm (name field)))
     \<and> (encodeData ext reg nm payload = Inl (MissingField t f)
          \<longrightarrow> (t = nm \<and> (\<exists>g \<in> set flds. name g = f \<and> field_is_unset ext payload g))
              \<or> (\<exists>g \<in> set flds. \<not> field_is_unset ext payload g
                    \<and> encoded_field ext reg payload g = Inl (MissingField t f)))
     \<and> (map_of reg (type field) \<noteq> None \<and> is_plain_object payload
            \<and> getProp ext payload (name field) = Inr Null
          \<longrightarrow> \<not> field_is_unset ext payload field
              \<and> encoded_field ext reg payload field = Inr (''bytes32'', Str B32Z))
     \<and> ((\<forall>g \<in> set flds. field_encodes ext reg payload g)
          \<longrightarrow> encodeData ext reg nm payload =
                (case abi_encode ext
                        (''bytes32'' # map (\<lambda>g. fst (projr (encoded_field ext reg payload g))) flds)
                        (Str typeHash # map (\<lambda>g. snd (projr (encoded_field ext reg payload g))) flds) of
                   None \<Rightarrow> Inl ExternalFailure
                 | Some bytes \<Rightarrow> Inr bytes))"
proof -
  from encodeData_registered [OF assms(1), of ext payload] assms(2)
  have unfolded: "encodeData ext reg nm payload =
      (case encodeData_fields ext reg nm flds payload [''bytes32''] [Str typeHash] of
         Inl e \<Rightarrow> Inl e
       | Inr (encodedTypes, encodedData) \<Rightarrow>
           (case abi_encode ext encodedTypes encodedData of
              None \<Rightarrow> Inl ExternalFailure
            | Some bytes \<Rightarrow> Inr bytes))"
    by simp
  have first: "encodeData ext reg nm payload = Inl (MissingField nm (name field))"
    if "flds = pre @ field # post" "\<forall>g \<in> set pre. field_encodes ext reg payload g"
      "field_is_unset ext payload field"
    using that unfolded
    by (simp add: encodeData_fields_prefix field_is_unset_def)
  have origin: "(t = nm \<and> (\<exists>g \<in> set flds. name g = f \<and> field_is_unset ext payload g))
        \<or> (\<exists>g \<in> set flds. \<not> field_is_unset ext payload g
              \<and> encoded_field ext reg payload g = Inl (MissingField t f))"
    if raised: "encodeData ext reg nm payload = Inl (MissingField t f)"
  proof -
    from raised unfolded
    have "encodeData_fields ext reg nm flds payload [''bytes32''] [Str typeHash]
        = Inl (MissingField t f)"
      by (auto split: sum.splits option.splits prod.splits)
    then show ?thesis by (rule encodeData_fields_MissingField)
  qed
  have null: "\<not> field_is_unset ext payload field
        \<and> encoded_field ext reg payload field = Inr (''bytes32'', Str B32Z)"
    if "map_of reg (type field) \<noteq> None" "is_plain_object payload"
      "getProp ext payload (name field) = Inr Null"
    using that
    by (auto simp: field_is_unset_def encoded_field_def encodeDataTypeField_struct_Null)
  have complete: "encodeData ext reg nm payload =
        (case abi_encode ext
                (''bytes32'' # map (\<lambda>g. fst (projr (encoded_field ext reg payload g))) flds)
                (Str typeHash # map (\<lambda>g. snd (projr (encoded_field ext reg payload g))) flds) of
           None \<Rightarrow> Inl ExternalFailure
         | Some bytes \<Rightarrow> Inr bytes)"
    if all: "\<forall>g \<in> set flds. field_encodes ext reg payload g"
    using encodeData_fields_prefix [OF all, of nm "[]" "[''bytes32'']" "[Str typeHash]"] unfolded
    by simp
  from first origin null complete show ?thesis by blast
qed

theorem encodeData_fields_checked_witness:
  "map_of example_registry ''Person'' = Some Person
   \<and> hashType example_capabilities example_registry ''Person''
       = Inr ''0x00000000000000000000000000000000000000000000000000000000000000dc''
   \<and> field_is_unset example_capabilities (Obj [(''name'', Str ''Bob'')])
         \<lparr>name = ''wallet'', type = ''address''\<rparr>
   \<and> encodeData example_capabilities example_registry ''Person'' (Obj [(''name'', Str ''Bob'')])
       = Inl (MissingField ''Person'' ''wallet'')
   \<and> map_of example_registry ''Mail'' = Some Mail
   \<and> list_all (field_encodes example_capabilities example_registry null_record) Mail
   \<and> getProp example_capabilities null_record ''from'' = Inr Null
   \<and> encoded_field example_capabilities example_registry null_record
         \<lparr>name = ''from'', type = ''Person''\<rparr> = Inr (''bytes32'', Str B32Z)
   \<and> encodeData example_capabilities example_registry ''Mail'' null_record
       = Inr (Buffer_from_string ''bytes320x00000000000000000000000000000000000000000000000000000000000000f2bytes320x0000000000000000000000000000000000000000000000000000000000000000bytes320x0000000000000000000000000000000000000000000000000000000000000000bytes320x00000000000000000000000000000000000000000000000000000000000000d2'')
   \<and> encodeData example_capabilities example_registry ''Mail'' nested_incomplete
       = Inl (MissingField ''Person'' ''name'')
   \<and> encoded_field example_capabilities example_registry nested_incomplete
         \<lparr>name = ''from'', type = ''Person''\<rparr> = Inl (MissingField ''Person'' ''name'')
   \<and> getProp example_capabilities (Obj []) ''toString'' = Inr (Builtin ''toString'')
   \<and> \<not> field_is_unset example_capabilities (Obj []) \<lparr>name = ''toString'', type = ''string''\<rparr>"
proof -
  have person: "map_of example_registry ''Person'' = Some Person"
    and mail: "map_of example_registry ''Mail'' = Some Mail"
    by (simp_all add: example_registry_def)
  have split: "Person = [\<lparr>name = ''name'', type = ''string''\<rparr>] @ \<lparr>name = ''wallet'', type = ''address''\<rparr> # []"
    by (simp add: Person_def)
  have before: "\<forall>g \<in> set [\<lparr>name = ''name'', type = ''string''\<rparr>].
      field_encodes example_capabilities example_registry (Obj [(''name'', Str ''Bob'')]) g"
    by code_simp
  have unset: "field_is_unset example_capabilities (Obj [(''name'', Str ''Bob'')])
      \<lparr>name = ''wallet'', type = ''address''\<rparr>"
    by code_simp
  have person_hash: "hashType example_capabilities example_registry ''Person''
       = Inr ''0x00000000000000000000000000000000000000000000000000000000000000dc''"
    and mail_hash: "hashType example_capabilities example_registry ''Mail''
       = Inr ''0x00000000000000000000000000000000000000000000000000000000000000f2''"
    by code_simp+
  from encodeData_fields_checked [OF person person_hash, of "[\<lparr>name = ''name'', type = ''string''\<rparr>]"
      "\<lparr>name = ''wallet'', type = ''address''\<rparr>" "[]" "Obj [(''name'', Str ''Bob'')]"]
    split before unset
  have missing: "encodeData example_capabilities example_registry ''Person'' (Obj [(''name'', Str ''Bob'')])
       = Inl (MissingField ''Person'' ''wallet'')"
    by simp
  have registered: "map_of example_registry (type \<lparr>name = ''from'', type = ''Person''\<rparr>) \<noteq> None"
    and null: "getProp example_capabilities null_record
        (name \<lparr>name = ''from'', type = ''Person''\<rparr>) = Inr Null"
    and plain: "is_plain_object null_record"
    by code_simp+
  from encodeData_fields_checked [OF mail mail_hash, of "[]" "\<lparr>name = ''from'', type = ''Person''\<rparr>"
      "[]" null_record] registered null plain
  have zero: "encoded_field example_capabilities example_registry null_record
         \<lparr>name = ''from'', type = ''Person''\<rparr> = Inr (''bytes32'', Str B32Z)"
    by simp
  have evaluated: "list_all (field_encodes example_capabilities example_registry null_record) Mail"
    "encodeData example_capabilities example_registry ''Mail'' null_record
       = Inr (Buffer_from_string ''bytes320x00000000000000000000000000000000000000000000000000000000000000f2bytes320x0000000000000000000000000000000000000000000000000000000000000000bytes320x0000000000000000000000000000000000000000000000000000000000000000bytes320x00000000000000000000000000000000000000000000000000000000000000d2'')"
    "encodeData example_capabilities example_registry ''Mail'' nested_incomplete
       = Inl (MissingField ''Person'' ''name'')"
    "encoded_field example_capabilities example_registry nested_incomplete
         \<lparr>name = ''from'', type = ''Person''\<rparr> = Inl (MissingField ''Person'' ''name'')"
    "getProp example_capabilities (Obj []) ''toString'' = Inr (Builtin ''toString'')"
    "\<not> field_is_unset example_capabilities (Obj []) \<lparr>name = ''toString'', type = ''string''\<rparr>"
    by code_simp+
  from person person_hash mail unset missing null zero evaluated show ?thesis by simp
qed

text \<open>
  Claim C5 as stated fails in both directions. No declared field of \<open>Mail\<close> is unset in the
  first record, yet \<open>MissingField\<close> is raised, for a field of the nested \<open>Person\<close>; the
  declared field \<open>weight\<close> of \<open>Node\<close> is unset in the second record, yet the error is the
  \<open>TypeError\<close> of the field before it.
\<close>

theorem encodeData_fields_checked_counterexample:
  "map_of example_registry ''Mail'' = Some Mail
   \<and> list_all (\<lambda>g. \<not> field_is_unset example_capabilities nested_incomplete g) Mail
   \<and> encodeData example_capabilities example_registry ''Mail'' nested_incomplete
       = Inl (MissingField ''Person'' ''name'')
   \<and> field_is_unset example_capabilities wrong_kind_then_unset \<lparr>name = ''weight'', type = ''uint256''\<rparr>
   \<and> encodeData example_capabilities cyclic_registry ''Node'' wrong_kind_then_unset = Inl TypeError"
  by code_simp

text \<open>
  Claim C6, as amended. Where the dependency resolver returns for the primary type, the
  check of \<open>payload.types\<close> raises \<open>TypeCountMismatch\<close> when the number of its keys
  differs from the size of the required set, \<open>EIP712Domain\<close> with the dependencies
  returned. Otherwise it goes through the keys in order and raises at the first key that
  is out of order: \<open>UnknownType\<close> when that key is neither registered nor a name that
  the registry object inherits, \<open>FieldMismatch\<close> for the first field it claims that the
  registered schema does not have by name with the same type string. It accepts when
  every key is registered and every claimed field matches: a schema may claim fewer fields
  than the registered one, and the keys need not be the required set, only as many.
\<close>

theorem verifyTypes_first_violation:
  assumes "primaryType payload = Some primary" and "types payload = Some payload_types"
    and "getDependenciesOf reg primary {} = Inr (deps, met')"
  shows "(length payload_types \<noteq> card (insert ''EIP712Domain'' (set deps))
          \<longrightarrow> verifyTypes reg payload = Inl TypeCountMismatch)
     \<and> (length payload_types = card (insert ''EIP712Domain'' (set deps))
          \<longrightarrow>
          (map fst payload_types = pre @ ty # post
             \<and> (\<forall>k \<in> set pre. type_entry_ok reg payload_types k)
             \<and> map_of reg ty = None \<and> ty \<notin> set Object_prototype
           \<longrightarrow> verifyTypes reg payload = Inl (UnknownType ty))
          \<and> (map fst payload_types = pre @ ty # post
               \<and> (\<forall>k \<in> set pre. type_entry_ok reg payload_types k)
               \<and> map_of reg ty = Some registered
               \<and> map_of payload_types ty = Some (fpre @ field # fpost)
               \<and> list_all (field_matches registered) fpre \<and> \<not> field_matches registered field
             \<longrightarrow> verifyTypes reg payload = Inl (FieldMismatch ty (name field)))
          \<and> ((\<forall>k \<in> set (map fst payload_types). type_entry_ok reg payload_types k)
             \<longrightarrow> verifyTypes reg payload = Inr ()))"
proof -
  let ?required = "card (insert ''EIP712Domain'' (set deps))"
  have count: "verifyTypes reg payload = Inl TypeCountMismatch"
    if "length payload_types \<noteq> ?required"
    using that assms by (simp add: verifyTypes_def length_required_types)
  have loop: "verifyTypes reg payload
      = verifyTypes_loop reg payload_types (map fst payload_types)"
    if "length payload_types = ?required"
    using that assms by (simp add: verifyTypes_def length_required_types)
  have unknown: "verifyTypes_loop reg payload_types (map fst payload_types) = Inl (UnknownType ty)"
    if "map fst payload_types = pre @ ty # post"
      "\<forall>k \<in> set pre. type_entry_ok reg payload_types k"
      "map_of reg ty = None" "ty \<notin> set Object_prototype"
    using that by (simp add: verifyTypes_loop_prefix structs_get_Absent)
  have mismatch: "verifyTypes_loop reg payload_types (map fst payload_types)
      = Inl (FieldMismatch ty (name field))"
    if "map fst payload_types = pre @ ty # post"
      "\<forall>k \<in> set pre. type_entry_ok reg payload_types k" "map_of reg ty = Some registered"
      "map_of payload_types ty = Some (fpre @ field # fpost)"
      "list_all (field_matches registered) fpre" "\<not> field_matches registered field"
  proof -
    have "verifyTypes_fields ty (Own registered) (fpre @ field # fpost)
        = Inl (FieldMismatch ty (name field))"
      by (simp only: verifyTypes_fields_prefix [OF that(5)] verifyTypes_fields_mismatch [OF that(6)])
    moreover from that(3) have "structs_get reg ty = Own registered"
      by (simp add: structs_get_Own)
    ultimately show ?thesis using that(1-4) by (simp add: verifyTypes_loop_prefix)
  qed
  have accepted: "verifyTypes_loop reg payload_types (map fst payload_types) = Inr ()"
    if "\<forall>k \<in> set (map fst payload_types). type_entry_ok reg payload_types k"
    using verifyTypes_loop_prefix [OF that, of "[]"] by simp
  from count loop unknown mismatch accepted show ?thesis by metis
qed

theorem verifyTypes_first_violation_witness:
  "primaryType lenient_payload = Some ''Mail''
   \<and> getDependenciesOf wide_registry ''Mail'' {} = Inr ([''Mail'', ''Person''], {''Mail'', ''Person''})
   \<and> verifyTypes wide_registry lenient_payload = Inr ()
   \<and> verifyTypes example_registry short_payload = Inl TypeCountMismatch
   \<and> type_entry_ok example_registry
         [(''EIP712Domain'', EIP712DomainType), (''Bogus'', []), (''Person'', Person)] ''EIP712Domain''
   \<and> map_of example_registry ''Bogus'' = None
   \<and> ''Bogus'' \<notin> set Object_prototype
   \<and> verifyTypes example_registry unknown_second_payload = Inl (UnknownType ''Bogus'')
   \<and> \<not> field_matches Person \<lparr>name = ''nickname'', type = ''string''\<rparr>
   \<and> verifyTypes example_registry mismatch_first_payload = Inl (FieldMismatch ''Person'' ''nickname'')"
proof -
  have primary: "primaryType lenient_payload = Some ''Mail''"
    and tys: "types lenient_payload = Some [(''EIP712Domain'', []),
        (''Mail'', [\<lparr>name = ''from'', type = ''Person''\<rparr>]), (''UselessType'', [])]"
    by (simp_all add: lenient_payload_def example_payload_def)
  have deps: "getDependenciesOf wide_registry ''Mail'' {}
      = Inr ([''Mail'', ''Person''], {''Mail'', ''Person''})"
    by code_simp
  have size: "length [(''EIP712Domain'', [] :: EIP712Struct),
        (''Mail'', [\<lparr>name = ''from'', type = ''Person''\<rparr>]), (''UselessType'', [])]
      = card (insert ''EIP712Domain'' (set [''Mail'', ''Person'']))"
    by simp
  have ok: "\<forall>k \<in> set (map fst [(''EIP712Domain'', [] :: EIP712Struct),
        (''Mail'', [\<lparr>name = ''from'', type = ''Person''\<rparr>]), (''UselessType'', [])]).
      type_entry_ok wide_registry [(''EIP712Domain'', []),
        (''Mail'', [\<lparr>name = ''from'', type = ''Person''\<rparr>]), (''UselessType'', [])] k"
    by code_simp
  from verifyTypes_first_violation [OF primary tys deps] size ok
  have accepted: "verifyTypes wide_registry lenient_payload = Inr ()"
    by blast
  have evaluated: "verifyTypes example_registry short_payload = Inl TypeCountMismatch"
    "type_entry_ok example_registry
         [(''EIP712Domain'', EIP712DomainType), (''Bogus'', []), (''Person'', Person)] ''EIP712Domain''"
    "map_of example_registry ''Bogus'' = None"
    "''Bogus'' \<notin> set Object_prototype"
    "verifyTypes example_registry unknown_second_payload = Inl (UnknownType ''Bogus'')"
    "\<not> field_matches Person \<lparr>name = ''nickname'', type = ''string''\<rparr>"
    "verifyTypes example_registry mismatch_first_payload = Inl (FieldMismatch ''Person'' ''nickname'')"
    by code_simp+
  from primary deps accepted evaluated show ?thesis by simp
qed

text \<open>
  Claim C6 as stated fails: the payload has as many type names as required and the name
  \<open>Bogus\<close> among them is not registered, yet the error is not \<open>UnknownType\<close> but the
  \<open>FieldMismatch\<close> of the entry before it.
\<close>

theorem verifyTypes_first_violation_counterexample:
  "types mismatch_first_payload
     = Some [(''Person'', [\<lparr>name = ''nickname'', type = ''string''\<rparr>]), (''Bogus'', []),
             (''EIP712Domain'', EIP712DomainType)]
   \<and> getDependenciesOf example_registry ''Mail'' {} = Inr ([''Mail'', ''Person''], {''Mail'', ''Person''})
   \<and> length (map fst (required_types example_registry [''Mail'', ''Person''])) = 3
   \<and> map_of example_registry ''Bogus'' = None
   \<and> ''Bogus'' \<notin> set Object_prototype
   \<and> verifyTypes example_registry mismatch_first_payload = Inl (FieldMismatch ''Person'' ''nickname'')"
  by code_simp

text \<open>
  Claim C7, as amended. Where \<open>uint256\<close> is not itself a registered struct name,
  \<open>encodeField("uint256", v)\<close> leaves a native integer as it is and replaces a big number
  by its decimal string: the outputs for the same number \<open>n\<close> are the pairs
  \<open>(uint256, n)\<close> and \<open>(uint256, "n")\<close>, which differ. Only the big number is converted;
  that both forms encode alike is left to the ABI encoder.
\<close>

theorem encodeDataTypeField_uint256:
  assumes "map_of reg ''uint256'' = None"
  shows "encodeDataTypeField ext reg ''uint256'' (Number n) = Inr (''uint256'', Number n)
     \<and> encodeDataTypeField ext reg ''uint256'' (BN n) = Inr (''uint256'', Str (BN_toString n))
     \<and> encodeDataTypeField ext reg ''uint256'' (Number n)
         \<noteq> encodeDataTypeField ext reg ''uint256'' (BN n)"
  using assms by (simp add: encodeDataTypeField_uint256_Number encodeDataTypeField_uint256_BN)

theorem encodeDataTypeField_uint256_witness:
  "map_of example_registry ''uint256'' = None
   \<and> encodeDataTypeField example_capabilities example_registry ''uint256'' (Number 12)
       = Inr (''uint256'', Number 12)
   \<and> encodeDataTypeField example_capabilities example_registry ''uint256'' (BN 12)
       = Inr (''uint256'', Str ''12'')"
proof -
  have unregistered: "map_of example_registry ''uint256'' = None"
    by code_simp
  have decimal: "BN_toString 12 = ''12''"
    by code_simp
  from encodeDataTypeField_uint256 [OF unregistered, of example_capabilities 12] unregistered decimal
  show ?thesis by simp
qed

text \<open>
  Claim C7 as stated fails: the native integer 12 and the big number 12 give different
  outputs, the number 12 and the string \<open>12\<close>.
\<close>

theorem encodeDataTypeField_uint256_counterexample:
  "encodeDataTypeField example_capabilities example_registry ''uint256'' (Number 12)
     \<noteq> encodeDataTypeField example_capabilities example_registry ''uint256'' (BN 12)"
  by code_simp

text \<open>
  Claim C8. Two signers built from the same domain and the same (name, schema) pairs, given
  in any order, have the same type signature for every type name.
\<close>

theorem signature_independent_of_registration_order:
  assumes "mset tys = mset tys'" and "constructor dmn tys = Inr signer"
  shows "\<exists>signer'. constructor dmn tys' = Inr signer'
     \<and> (\<forall>ty. encodeType (structs signer') ty = encodeType (structs signer) ty)"
proof -
  let ?base = "[(''EIP712Domain'', EIP712DomainType)]"
  from assms(2) obtain reg where reg: "addTypes ?base tys = Inr reg"
    and signer: "signer = \<lparr>structs = reg, signer_domain = dmn\<rparr>"
    by (auto simp: constructor_def split: sum.splits)
  from addTypes_Inr [OF reg] have eq: "reg = ?base @ tys" and d: "distinct (map fst tys)"
    and new: "\<forall>n \<in> set (map fst tys). map_of ?base n = None \<and> n \<notin> set Object_prototype"
    by auto
  from assms(1) have names: "mset (map fst tys) = mset (map fst tys')"
    by (metis mset_map)
  from names d have d': "distinct (map fst tys')"
    by (metis mset_eq_imp_distinct_iff)
  from names have same: "set (map fst tys) = set (map fst tys')" by (rule mset_eq_setD)
  from new have new': "\<forall>n \<in> set (map fst tys').
      map_of ?base n = None \<and> n \<notin> set Object_prototype"
    unfolding same .
  from d' new' have reg': "addTypes ?base tys' = Inr (?base @ tys')"
    by (rule addTypes_succeeds)
  from assms(1) have "set tys = set tys'" by (rule mset_eq_setD)
  with d d' have "map_of tys = map_of tys'"
    by (simp add: map_of_inject_set)
  then have "map_of (?base @ tys') = map_of (?base @ tys)"
    by (simp only: map_of_append)
  then have "\<forall>ty. encodeType (?base @ tys') ty = encodeType (?base @ tys) ty"
    by (simp add: encodeType_cong)
  with reg' eq signer show ?thesis
    by (simp add: constructor_def)
qed

theorem signature_independent_of_registration_order_witness:
  "mset [(''Mail'', Mail), (''Person'', Person)] = mset [(''Person'', Person), (''Mail'', Mail)]
   \<and> constructor example_domain [(''Mail'', Mail), (''Person'', Person)] = Inr example_signer
   \<and> (\<exists>signer'. constructor example_domain [(''Person'', Person), (''Mail'', Mail)] = Inr signer'
        \<and> (\<forall>ty. encodeType (structs signer') ty = encodeType (structs example_signer) ty))"
proof -
  have perm: "mset [(''Mail'', Mail), (''Person'', Person)]
      = mset [(''Person'', Person), (''Mail'', Mail)]"
    by (simp add: add_mset_commute)
  have built: "constructor example_domain [(''Mail'', Mail), (''Person'', Person)] = Inr example_signer"
    by code_simp
  from signature_independent_of_registration_order [OF perm built] perm built
  show ?thesis by blast
qed

text \<open>
  Claim C9. The claim says that \<open>_getDependenciesOf\<close> stops at a type that is not a
  struct, which then contributes nothing, and the comment in the function says the same.
  The code misses two cases. The test \<open>this.structs[type] === undefined\<close> is false for a
  name that the registry object inherits, such as \<open>toString\<close>: the name is taken for a
  struct and the loop over its fields raises a \<open>TypeError\<close>, also when it is only the type
  of a field. The test for a trailing \<open>[]\<close> holds for every name of one character, which is
  cut down to the empty name: where the empty name is registered, the elementary type
  \<open>x\<close> contributes it, and a registered struct named \<open>A\<close> is never resolved.
\<close>

theorem getDependenciesOf_misses_nonstruct:
  "map_of inherited_registry ''toString'' = None
   \<and> getDependenciesOf inherited_registry ''toString'' {} = Inl TypeError
   \<and> getDependenciesOf inherited_registry ''Doc'' {} = Inl TypeError
   \<and> map_of empty_name_registry ''x'' = None
   \<and> getDependenciesOf empty_name_registry ''x'' {} = Inr ([[]], {[]})
   \<and> getDependenciesOf empty_name_registry ''Doc'' {} = Inr ([''Doc'', []], {''Doc'', []})
   \<and> map_of short_name_registry ''A'' = Some [\<lparr>name = ''b'', type = ''B''\<rparr>]
   \<and> getDependenciesOf short_name_registry ''A'' {} = Inr ([], {})"
  by code_simp

text \<open>
  Claim C10. When the keys of the payload are not exactly \<open>domain\<close>, \<open>types\<close>,
  \<open>message\<close> and \<open>primaryType\<close>, \<open>encode\<close> raises \<open>InvalidPayloadShape\<close> whatever the
  flag \<open>verify\<close> is, and so do \<open>sign\<close>, \<open>verify\<close> and \<open>verifyPayload\<close>.
\<close>

theorem shape_check_unconditional:
  assumes "set (Object_keys payload) \<noteq> set REQUIRED_FIELDS"
  shows "encode ext signer payload check = Inl InvalidPayloadShape
     \<and> sign ext signer privateKey payload check = Inl InvalidPayloadShape
     \<and> verify ext signer payload signature check = Inl InvalidPayloadShape
     \<and> verifyPayload ext signer payload = Inl InvalidPayloadShape"
proof -
  from assms have "verifyMainPayloadField payload = Inl InvalidPayloadShape"
    by (rule verifyMainPayloadField_rejects)
  then have "encode ext signer payload check = Inl InvalidPayloadShape"
    and "verifyPayload ext signer payload = Inl InvalidPayloadShape"
    by (simp_all add: encode_def verifyPayload_def)
  then show ?thesis by (simp add: sign_def verify_def)
qed

theorem shape_check_unconditional_witness:
  "set (Object_keys misnamed_payload) \<noteq> set REQUIRED_FIELDS
   \<and> encode example_capabilities example_signer misnamed_payload False = Inl InvalidPayloadShape
   \<and> sign example_capabilities example_signer (PrivateKey ''abc'') misnamed_payload False
       = Inl InvalidPayloadShape
   \<and> verify example_capabilities example_signer misnamed_payload ''0x00'' False
       = Inl InvalidPayloadShape"
proof -
  have keys: "set (Object_keys misnamed_payload) \<noteq> set REQUIRED_FIELDS"
    by code_simp
  from shape_check_unconditional [OF keys] keys show ?thesis by blast
qed

end
